theory Spec2Isabelle
  imports Complex_Main "HOL-Library.Multiset" "HOL-Library.Signed_Division"
begin

section \<open>Gas storage dashboard: main.go\<close>

text \<open>
  A shallow embedding of the aggregation, projection and cache code of \<^verbatim>\<open>main.go\<close>.

  Conventions of the embedding.
  \<^item> A \<^verbatim>\<open>time.Time\<close> is the integer number of nanoseconds since Go's zero time
    (January 1, year 1, 00:00:00 UTC), so that \<^verbatim>\<open>IsZero\<close> is equality with \<open>0\<close> and
    \<^verbatim>\<open>Before\<close> is \<open><\<close>. A \<^verbatim>\<open>time.Duration\<close> is an integer number of nanoseconds in
    the signed 64-bit range.
  \<^item> A \<^verbatim>\<open>float64\<close> value is the real number it denotes; infinities, NaN and the sign
    of zero are outside the embedding. The trend, the historical analog, the KPI and
    the first version of the regression and of the decline scenarios read the
    arithmetic exactly. The elapsed days and the second version of the regression and
    of the scenarios (\<open>linearRegression64\<close>, \<open>makeProjectionPoints64\<close>,
    \<open>generateScenarios64\<close>) round every operation to binary64, as the program does.
  \<^item> An \<^verbatim>\<open>int\<close> is an integer; wrap-around is written out where the code multiplies
    a converted float.
  \<^item> Functions of Go's standard library whose result depends on text formats or on an
    unspecified algorithm (\<^verbatim>\<open>time.Parse\<close>, \<^verbatim>\<open>Time.Format\<close>, \<^verbatim>\<open>strconv.ParseFloat\<close>,
    \<^verbatim>\<open>sort.Slice\<close>, the implementation-dependent result of an out-of-range float to
    integer conversion) are fields of a record \<open>stdlib\<close> that the functions take as
    their first argument.
  \<^item> Log output does not influence control flow and is left out.
\<close>

subsection \<open>Configuration\<close>

definition criticalThreshold :: real where
  "criticalThreshold = 10"

definition trendWindow :: nat where
  "trendWindow = 14"

definition stressMultiplier :: real where
  "stressMultiplier = 125 / 100"

definition retryAttempts :: nat where
  "retryAttempts = 3"

definition Nanosecond :: int where
  "Nanosecond = 1"

definition Second :: int where
  "Second = 1000000000 * Nanosecond"

definition Hour :: int where
  "Hour = 3600 * Second"

definition retryDelay :: int where
  "retryDelay = 2 * Second"

subsection \<open>Binary64 arithmetic\<close>

text \<open>
  The number of binary digits of a positive integer, and the exponent \<open>binade x\<close> of
  the power of two with \<open>2 powi binade x \<le> \<bar>x\<bar> < 2 powi (binade x + 1)\<close>.
\<close>

function bitlen :: "int \<Rightarrow> int" where
  "bitlen n = (if n \<le> 0 then 0 else 1 + bitlen (n div 2))"
  by pat_completeness auto
termination
  by (relation "measure nat") auto

declare bitlen.simps [simp del]

definition binade :: "real \<Rightarrow> int" where
  "binade x =
     (if 1 \<le> \<bar>x\<bar> then bitlen \<lfloor>\<bar>x\<bar>\<rfloor> - 1
      else - bitlen (\<lceil>1 / \<bar>x\<bar>\<rceil> - 1))"

text \<open>The nearest integer, the even one of two that are equally near.\<close>

definition round_even :: "real \<Rightarrow> int" where
  "round_even x =
     (let n = \<lfloor>x\<rfloor>; d = x - real_of_int n
      in if d < 1 / 2 then n
         else if 1 / 2 < d then n + 1
         else if even n then n else n + 1)"

text \<open>
  The binary64 numbers near \<open>x\<close> are the multiples of \<open>2 powi ulp_exp x\<close>: 53 binary
  digits, and no exponent below that of the subnormal numbers.
\<close>

definition ulp_exp :: "real \<Rightarrow> int" where
  "ulp_exp x = max (binade x - 52) (- 1074)"

text \<open>
  \<open>float64 x\<close> is \<open>x\<close> rounded to the nearest binary64 number, ties to even: the
  conversion \<^verbatim>\<open>float64(x)\<close> of an integer or of a constant, and the rounding of every
  operation. A result of magnitude \<open>2 ^ 1024\<close> or more stands for an infinity and is not
  followed further. Each operation rounds on its own; a compiler that fuses a product
  into the sum that uses it (as Go may on some targets) rounds once.
\<close>

definition float64 :: "real \<Rightarrow> real" where
  "float64 x = real_of_int (round_even (x / 2 powi ulp_exp x)) * 2 powi ulp_exp x"

definition add64 :: "real \<Rightarrow> real \<Rightarrow> real" where
  "add64 x y = float64 (x + y)"

definition sub64 :: "real \<Rightarrow> real \<Rightarrow> real" where
  "sub64 x y = float64 (x - y)"

definition mul64 :: "real \<Rightarrow> real \<Rightarrow> real" where
  "mul64 x y = float64 (x * y)"

definition div64 :: "real \<Rightarrow> real \<Rightarrow> real" where
  "div64 x y = float64 (x / y)"

subsection \<open>Time and durations\<close>

definition maxDuration :: int where
  "maxDuration = 2 ^ 63 - 1"

definition minDuration :: int where
  "minDuration = - (2 ^ 63)"

text \<open>\<^verbatim>\<open>t.Sub(u)\<close>: the difference, saturated at the ends of the \<^verbatim>\<open>Duration\<close> range.\<close>

definition time_Sub :: "int \<Rightarrow> int \<Rightarrow> int" where
  "time_Sub t u =
     (let d = t - u
      in if d < minDuration then minDuration
         else if maxDuration < d then maxDuration
         else d)"

text \<open>\<^verbatim>\<open>time.Since(t)\<close> at the instant \<open>now\<close>.\<close>

definition time_Since :: "int \<Rightarrow> int \<Rightarrow> int" where
  "time_Since now t = time_Sub now t"

subsection \<open>Data cache\<close>

text \<open>
  The cache holds a pointer to the last build (\<open>None\<close> is \<^verbatim>\<open>nil\<close>), the instant it was
  stored and the time to live. Each method runs under the cache's read/write lock, so
  it is one atomic function of the clock and the cache.
\<close>

record 'd Cache =
  data :: "'d option"
  lastFetched :: int
  ttl :: int

definition Cache_Get :: "int \<Rightarrow> 'd Cache \<Rightarrow> 'd option" where
  "Cache_Get now c =
     (if data c \<noteq> None \<and> time_Since now (lastFetched c) < ttl c then data c else None)"

definition Cache_Set :: "int \<Rightarrow> 'd option \<Rightarrow> 'd Cache \<Rightarrow> 'd Cache" where
  "Cache_Set now d c = c\<lparr>data := d, lastFetched := now\<rparr>"

definition Cache_Clear :: "'d Cache \<Rightarrow> 'd Cache" where
  "Cache_Clear c = c\<lparr>data := None\<rparr>"

subsection \<open>Data models\<close>

text \<open>One row of the upstream answer: the date and three numbers, all as text.\<close>

record APIRecord =
  GasDayStart :: string
  Full :: string
  Injection :: string
  Withdrawal :: string

record DayRecord =
  Date :: int
  DateStr :: string
  Full :: real
  Injection :: real
  Withdrawal :: real
  DaysElapsed :: int
  Trend :: real
  TrendMA7 :: real

record ScenarioPoint =
  X :: real
  Y :: real
  HoverDate :: string

record Scenario =
  Name :: string
  Label :: string
  Color :: string
  Dash :: string
  Points :: "ScenarioPoint list"
  HitDate :: string
  Slope :: real
  DaysLeft :: int

record KPIData =
  CurrentFill :: real
  CurrentDate :: string
  Delta7D :: real
  AvgWithdrawal :: real
  DaysToCrit :: int

subsection \<open>Standard library\<close>

text \<open>
  The library functions the code calls and the embedding does not define:
  \<^item> \<open>time_Parse layout value\<close> is \<^verbatim>\<open>time.Parse\<close>; \<open>None\<close> is a parse error;
  \<^item> \<open>time_Format t layout\<close> is \<^verbatim>\<open>t.Format(layout)\<close>;
  \<^item> \<open>strconv_ParseFloat s\<close> is the number \<^verbatim>\<open>strconv.ParseFloat(s, 64)\<close> returns (the
    error is dropped by the caller);
  \<^item> \<open>json_Unmarshal body\<close> is the \<^verbatim>\<open>data\<close> array decoded from the body, or the decoding
    error;
  \<^item> \<open>sort_Slice less xs\<close> is the slice after \<^verbatim>\<open>sort.Slice(xs, less)\<close>;
  \<^item> \<open>float_to_int_overflow x\<close> is the implementation-dependent integer a conversion
    of a float outside the 64-bit range yields.
\<close>

record stdlib =
  time_Parse :: "string \<Rightarrow> string \<Rightarrow> int option"
  time_Format :: "int \<Rightarrow> string \<Rightarrow> string"
  strconv_ParseFloat :: "string \<Rightarrow> real"
  json_Unmarshal :: "string \<Rightarrow> string + APIRecord list"
  sort_Slice :: "(DayRecord \<Rightarrow> DayRecord \<Rightarrow> bool) \<Rightarrow> DayRecord list \<Rightarrow> DayRecord list"
  float_to_int_overflow :: "real \<Rightarrow> int"

text \<open>
  What \<^verbatim>\<open>sort.Slice\<close> guarantees for the comparison \<open>fetchSeason\<close> passes (dates in
  ascending order): the result is a rearrangement of the slice in which no record is
  followed by one of an earlier date. The sort is not stable, so nothing is said about
  the order of records of equal date.
\<close>

definition sort_Slice_sorts :: "stdlib \<Rightarrow> bool" where
  "sort_Slice_sorts L =
     (\<forall>xs. mset (sort_Slice L (\<lambda>a b. Date a < Date b) xs) = mset xs
         \<and> sorted_wrt (\<lambda>a b. \<not> Date b < Date a) (sort_Slice L (\<lambda>a b. Date a < Date b) xs))"

text \<open>The conversion \<^verbatim>\<open>int(x)\<close> of a float: truncation toward zero when it fits.\<close>

definition float_to_int :: "stdlib \<Rightarrow> real \<Rightarrow> int" where
  "float_to_int L x =
     (let t = (if 0 \<le> x then \<lfloor>x\<rfloor> else \<lceil>x\<rceil>)
      in if - (2 ^ 63) \<le> t \<and> t \<le> 2 ^ 63 - 1 then t else float_to_int_overflow L x)"

text \<open>Signed 64-bit multiplication wraps around.\<close>

definition wrap64 :: "int \<Rightarrow> int" where
  "wrap64 i = (i + 2 ^ 63) mod 2 ^ 64 - 2 ^ 63"

text \<open>\<^verbatim>\<open>time.Duration(x) * time.Hour\<close> for a float \<open>x\<close>.\<close>

definition hours_Duration :: "stdlib \<Rightarrow> real \<Rightarrow> int" where
  "hours_Duration L x = wrap64 (float_to_int L x * Hour)"

text \<open>
  \<^verbatim>\<open>d.Hours()\<close>: the whole hours plus the remaining nanoseconds as a fraction of an
  hour, in binary64.
\<close>

definition Duration_Hours :: "int \<Rightarrow> real" where
  "Duration_Hours d =
     (let hour = d sdiv Hour; nsec = d smod Hour
      in add64 (float64 (real_of_int hour))
               (div64 (float64 (real_of_int nsec)) (float64 (60 * 60 * 1000000000))))"

text \<open>The verbs \<^verbatim>\<open>%d\<close> and \<^verbatim>\<open>%02d\<close> of \<^verbatim>\<open>fmt.Sprintf\<close>.\<close>

function decimal :: "nat \<Rightarrow> string" where
  "decimal n =
     (if n < 10 then [''0123456789'' ! n]
      else decimal (n div 10) @ [''0123456789'' ! (n mod 10)])"
  by pat_completeness auto
termination
  by (relation "measure (\<lambda>n. n)") auto

declare decimal.simps [simp del]

definition Sprintf_d :: "int \<Rightarrow> string" where
  "Sprintf_d i = (if i < 0 then CHR ''-'' # decimal (nat (- i)) else decimal (nat i))"

definition Sprintf_02d :: "int \<Rightarrow> string" where
  "Sprintf_02d i =
     (let s = Sprintf_d i
      in if length s < 2 then replicate (2 - length s) CHR ''0'' @ s else s)"

subsection \<open>The world outside\<close>

text \<open>
  What one upstream exchange of \<open>fetchSeason\<close> ends in: \<^verbatim>\<open>http.NewRequest\<close> fails (no
  request is sent), \<^verbatim>\<open>client.Do\<close> fails, reading the body fails, or a response with a
  status code and a body arrives.
\<close>

datatype http_result =
    NewRequestFailed string
  | DoFailed string
  | ReadAllFailed string
  | Response int string

text \<open>
  The world is the clock (\<^verbatim>\<open>time.Now()\<close>), the results of the upstream exchanges in the
  order they are made, the number of requests sent so far, and the durations the
  program has slept. The request's URL and headers are not modelled: the \<open>n\<close>-th
  exchange ends as \<open>http n\<close> says.
\<close>

record world =
  clock :: int
  http :: "nat \<Rightarrow> http_result"
  requests :: nat
  slept :: "int list"

text \<open>\<^verbatim>\<open>time.Sleep(d)\<close> returns at once when \<open>d\<close> is not positive.\<close>

definition time_Sleep :: "int \<Rightarrow> world \<Rightarrow> world" where
  "time_Sleep d w = w\<lparr>clock := clock w + max d 0, slept := slept w @ [d]\<rparr>"

text \<open>The errors \<open>fetchSeason\<close> and \<open>fetchSeasonWithRetry\<close> build with \<^verbatim>\<open>fmt.Errorf\<close>.\<close>

datatype fetch_error =
    SeasonInFuture int string
  | RequestCreation string
  | HTTPRequest string
  | ReadingResponse string
  | APIStatus int string
  | JSONDecode string
  | NoValidRecords
  | AllAttemptsFailed nat int "fetch_error option"

subsection \<open>API fetching\<close>

definition winterStartMD :: string where
  "winterStartMD = ''11-01''"

fun parseDate_formats :: "stdlib \<Rightarrow> string list \<Rightarrow> string \<Rightarrow> int" where
  "parseDate_formats L [] s = 0"
| "parseDate_formats L (f # fs) s =
     (case time_Parse L f s of Some t \<Rightarrow> t | None \<Rightarrow> parseDate_formats L fs s)"

definition parseDate :: "stdlib \<Rightarrow> string \<Rightarrow> int" where
  "parseDate L s =
     parseDate_formats L
       [''2006-01-02'',
        ''2006-01-02T15:04:05Z'',
        ''2006-01-02T15:04:05'',
        ''2006-01-02 15:04:05'',
        ''2006-01-02T15:04:05Z07:00'']
       s"

text \<open>\<^verbatim>\<open>t, _ := time.Parse(layout, value)\<close>: the zero time when parsing fails.\<close>

definition time_Parse_or_zero :: "stdlib \<Rightarrow> string \<Rightarrow> string \<Rightarrow> int" where
  "time_Parse_or_zero L layout v = (case time_Parse L layout v of Some t \<Rightarrow> t | None \<Rightarrow> 0)"

definition parseFloat :: "stdlib \<Rightarrow> string \<Rightarrow> real" where
  "parseFloat L s =
     (if s = [] \<or> s = ''-'' \<or> s = ''N/A'' then 0 else strconv_ParseFloat L s)"

text \<open>
  The loop of \<open>fetchSeason\<close> that parses the rows: a row whose date does not parse
  (the zero time) is skipped, the others are appended in order.
\<close>

fun parse_records :: "stdlib \<Rightarrow> int \<Rightarrow> APIRecord list \<Rightarrow> DayRecord list" where
  "parse_records L seasonStart [] = []"
| "parse_records L seasonStart (r # rs) =
     (let date = parseDate L (GasDayStart r)
      in if date = 0 then parse_records L seasonStart rs
         else
           (let elapsed = float_to_int L (div64 (Duration_Hours (time_Sub date seasonStart)) 24)
            in \<lparr>Date = date,
                DateStr = time_Format L date ''02 Jan 2006'',
                Full = parseFloat L (APIRecord.Full r),
                Injection = parseFloat L (APIRecord.Injection r),
                Withdrawal = parseFloat L (APIRecord.Withdrawal r),
                DaysElapsed = elapsed,
                Trend = 0,
                TrendMA7 = 0\<rparr> # parse_records L seasonStart rs))"

text \<open>
  One iteration of the loop that calculates the trend and its seven day moving average,
  at index \<open>i\<close> of the slice, which it updates in place.
\<close>

definition trend_step :: "DayRecord list \<Rightarrow> nat \<Rightarrow> DayRecord list" where
  "trend_step records i =
     (let records1 =
            (if 0 < i
             then records[i := (records ! i)\<lparr>Trend := Full (records ! i) - Full (records ! (i - 1))\<rparr>]
             else records);
          start = (if int i - 6 < 0 then 0 else i - 6);
          sum = fold (\<lambda>j sum. sum + Trend (records1 ! j)) [start ..< i + 1] 0
      in records1[i := (records1 ! i)\<lparr>TrendMA7 := sum / real (i - start + 1)\<rparr>])"

definition calculate_trend :: "DayRecord list \<Rightarrow> DayRecord list" where
  "calculate_trend records = fold (\<lambda>i records. trend_step records i) [0 ..< length records] records"

text \<open>
  \<open>fetchSeason\<close>. The end date of the request is part of the URL only. The result is
  the error or the records (\<open>[]\<close> is the \<^verbatim>\<open>nil\<close> slice), and the world after the call.
\<close>

definition fetchSeason ::
  "stdlib \<Rightarrow> world \<Rightarrow> int \<Rightarrow> (fetch_error + DayRecord list) \<times> world" where
  "fetchSeason L w startYear =
     (let startDate = Sprintf_d startYear @ ''-'' @ winterStartMD;
          now = clock w;
          seasonStartParsed = time_Parse_or_zero L ''2006-01-02'' startDate
      in if now < seasonStartParsed then (Inl (SeasonInFuture startYear startDate), w)
         else
           (case http w (requests w) of
              NewRequestFailed e \<Rightarrow> (Inl (RequestCreation e), w)
            | DoFailed e \<Rightarrow> (Inl (HTTPRequest e), w\<lparr>requests := Suc (requests w)\<rparr>)
            | ReadAllFailed e \<Rightarrow> (Inl (ReadingResponse e), w\<lparr>requests := Suc (requests w)\<rparr>)
            | Response status body \<Rightarrow>
                (let w1 = w\<lparr>requests := Suc (requests w)\<rparr>
                 in if status \<noteq> 200 then (Inl (APIStatus status (take 500 body)), w1)
                    else
                      (case json_Unmarshal L body of
                         Inl e \<Rightarrow> (Inl (JSONDecode e), w1)
                       | Inr apiData \<Rightarrow>
                           if length apiData = 0 then (Inr [], w1)
                           else
                             (let seasonStart = time_Parse_or_zero L ''2006-01-02'' startDate;
                                  records = parse_records L seasonStart apiData
                              in if length records = 0 then (Inl NoValidRecords, w1)
                                 else
                                   (let sorted = sort_Slice L (\<lambda>a b. Date a < Date b) records
                                    in (Inr (calculate_trend sorted), w1)))))))"

text \<open>
  The loop of \<open>fetchSeasonWithRetry\<close> from attempt number \<open>attempt\<close> on; \<open>lastErr\<close> is
  \<open>None\<close> for \<^verbatim>\<open>nil\<close>.
\<close>

function fetchSeasonWithRetry_loop ::
  "stdlib \<Rightarrow> int \<Rightarrow> nat \<Rightarrow> fetch_error option \<Rightarrow> world
     \<Rightarrow> (fetch_error + DayRecord list) \<times> world" where
  "fetchSeasonWithRetry_loop L startYear attempt lastErr w =
     (if attempt \<le> retryAttempts
      then
        (case fetchSeason L w startYear of
           (Inr records, w1) \<Rightarrow> (Inr records, w1)
         | (Inl err, w1) \<Rightarrow>
             (let w2 = (if attempt < retryAttempts
                        then time_Sleep (retryDelay * int attempt) w1
                        else w1)
              in fetchSeasonWithRetry_loop L startYear (Suc attempt) (Some err) w2))
      else (Inl (AllAttemptsFailed retryAttempts startYear lastErr), w))"
  by pat_completeness auto
termination
  by (relation "measure (\<lambda>(L, startYear, attempt, lastErr, w). Suc retryAttempts - attempt)") auto

declare fetchSeasonWithRetry_loop.simps [simp del]

definition fetchSeasonWithRetry ::
  "stdlib \<Rightarrow> world \<Rightarrow> int \<Rightarrow> (fetch_error + DayRecord list) \<times> world" where
  "fetchSeasonWithRetry L w startYear = fetchSeasonWithRetry_loop L startYear 1 None w"

subsection \<open>Scenarios\<close>

text \<open>
  \<open>makeProjectionPoints\<close> is called with \<open>n = 50\<close> only; for \<open>n = 1\<close> the code divides
  zero by zero, which the embedding does not represent.
\<close>

definition makeProjectionPoints ::
  "stdlib \<Rightarrow> int \<Rightarrow> real \<Rightarrow> real \<Rightarrow> real \<Rightarrow> int \<Rightarrow> nat \<Rightarrow> ScenarioPoint list" where
  "makeProjectionPoints L startDay startVal slope totalDays startDate n =
     map (\<lambda>i.
            (let d = totalDays * real i / real_of_int (int n - 1)
             in \<lparr>X = real_of_int startDay + d,
                 Y = startVal + slope * d,
                 HoverDate = time_Format L (startDate + hours_Duration L (d * 24)) ''02 Jan 2006''\<rparr>))
         [0 ..< n]"

definition linearRegression :: "DayRecord list \<Rightarrow> real \<times> real" where
  "linearRegression records =
     (let n = real (length records)
      in if n < 2 then (0, 0)
         else
           (let (sx, sy, sxy, sx2) =
                  fold (\<lambda>r (sx, sy, sxy, sx2).
                          (let x = real_of_int (DaysElapsed r)
                           in (sx + x, sy + Full r, sxy + x * Full r, sx2 + x * x)))
                       records (0, 0, 0, 0);
                d = n * sx2 - sx * sx
            in if \<bar>d\<bar> < 1 / 10 ^ 10 then (0, sy / n)
               else
                 (let slope = (n * sxy - sx * sy) / d;
                      intercept = (sy - slope * sx) / n
                  in (slope, intercept))))"

text \<open>
  One iteration of the loop over the records of the preceding season: the points so
  far, \<open>base\<close> and \<open>found\<close> are the loop's variables.
\<close>

definition history_step ::
  "stdlib \<Rightarrow> int \<Rightarrow> real \<Rightarrow> DayRecord
     \<Rightarrow> ScenarioPoint list \<times> real \<times> bool \<Rightarrow> ScenarioPoint list \<times> real \<times> bool" where
  "history_step L currentDay currentVal r st =
     (case st of (pts, base, found) \<Rightarrow>
        if currentDay < DaysElapsed r
        then
          (let base1 = (if \<not> found then Full r else base)
           in (pts @ [\<lparr>X = real_of_int (DaysElapsed r),
                        Y = currentVal + (Full r - base1),
                        HoverDate = time_Format L (Date r) ''02 Jan''\<rparr>],
               base1, True))
        else (pts, base, found))"

text \<open>The labels start with a pictograph, written here as the bytes of its UTF-8 form.\<close>

definition label_Linear :: string where
  "label_Linear = [CHR 0xF0, CHR 0x9F, CHR 0x93, CHR 0x89] @ '' Linear Trend''"

definition label_Stress :: string where
  "label_Stress =
     [CHR 0xE2, CHR 0x9D, CHR 0x84, CHR 0xEF, CHR 0xB8, CHR 0x8F] @ '' Severe Winter''"

definition label_History :: "int \<Rightarrow> string" where
  "label_History histYear =
     [CHR 0xF0, CHR 0x9F, CHR 0x93, CHR 0x85] @ '' Like '' @ Sprintf_d histYear @ ''/''
       @ Sprintf_02d ((histYear + 1) smod 100)"

definition generateScenarios ::
  "stdlib \<Rightarrow> DayRecord list \<Rightarrow> (int \<rightharpoonup> DayRecord list) \<Rightarrow> int \<Rightarrow> Scenario list" where
  "generateScenarios L current allSeasons currentStartYear =
     (if length current < trendWindow then []
      else
        (let lastIdx = length current - 1;
             currentVal = Full (current ! lastIdx);
             currentDay = DaysElapsed (current ! lastIdx);
             lastDate = Date (current ! lastIdx);
             recentStart = nat (max (int (length current) - int trendWindow) 0);
             slope = fst (linearRegression (drop recentStart current));
             scenarios =
               (if slope < 0
                then
                  (let days = (criticalThreshold - currentVal) / slope;
                       hitDate = lastDate + hours_Duration L (days * 24);
                       ss = slope * stressMultiplier;
                       sd = (criticalThreshold - currentVal) / ss;
                       shd = lastDate + hours_Duration L (sd * 24)
                   in [\<lparr>Name = ''Linear'', Label = label_Linear,
                        Color = ''#c0392b'', Dash = ''dot'',
                        Points = makeProjectionPoints L currentDay currentVal slope days lastDate 50,
                        HitDate = time_Format L hitDate ''02.01.2006'',
                        Slope = slope,
                        DaysLeft = float_to_int L days\<rparr>,
                       \<lparr>Name = ''Stress'', Label = label_Stress,
                        Color = ''#800000'', Dash = ''dashdot'',
                        Points = makeProjectionPoints L currentDay currentVal ss sd lastDate 50,
                        HitDate = time_Format L shd ''02.01.2006'',
                        Slope = ss,
                        DaysLeft = float_to_int L sd\<rparr>])
                else []);
             histYear = currentStartYear - 1
         in (case allSeasons histYear of
               None \<Rightarrow> scenarios
             | Some recs \<Rightarrow>
                 if 0 < length recs
                 then
                   (let pts = fst (fold (history_step L currentDay currentVal) recs ([], 0, False))
                    in if 0 < length pts
                       then scenarios @
                              [\<lparr>Name = ''History'', Label = label_History histYear,
                                Color = ''#d35400'', Dash = ''dash'',
                                Points = pts,
                                HitDate = [],
                                Slope = 0,
                                DaysLeft = 0\<rparr>]
                       else scenarios)
                 else scenarios)))"

subsection \<open>KPI\<close>

text \<open>
  \<open>buildKPI\<close> reads the last record first, so it panics on an empty slice: the result
  \<open>None\<close>.
\<close>

definition buildKPI :: "stdlib \<Rightarrow> DayRecord list \<Rightarrow> Scenario list \<Rightarrow> KPIData option" where
  "buildKPI L records scenarios =
     (if length records = 0 then None
      else
        (let last = records ! (length records - 1);
             delta7D = (if 7 \<le> length records
                        then Full last - Full (records ! (length records - 7))
                        else 0);
             start = (if int (length records) - 7 < 0 then 0 else length records - 7);
             sum = fold (\<lambda>r sum. sum + Withdrawal r) (drop start records) 0;
             daysToCrit =
               fold (\<lambda>s d. if Name s = ''Linear'' \<and> 0 < DaysLeft s then DaysLeft s else d)
                    scenarios 999
         in Some \<lparr>CurrentFill = Full last,
                  CurrentDate = time_Format L (Date last) ''02 Jan 2006'',
                  Delta7D = delta7D,
                  AvgWithdrawal = sum / real (length records - start),
                  DaysToCrit = daysToCrit\<rparr>))"

subsection \<open>HTTP handlers\<close>






subsection \<open>Auxiliary notions\<close>

text \<open>
  The denominator of the regression slope for the elapsed days \<open>ks\<close>: the number of
  points times the sum of squares, minus the square of the sum.
\<close>

definition spread :: "int list \<Rightarrow> int" where
  "spread ks = int (length ks) * (\<Sum>k\<leftarrow>ks. k * k) - (\<Sum>k\<leftarrow>ks. k) * (\<Sum>k\<leftarrow>ks. k)"











subsection \<open>Sample data\<close>

text \<open>
  A library for running the functions on concrete inputs. It parses the dates and
  numbers of the samples below as Go does, renders every time as the layout itself, and
  sorts by insertion. Instants count from Go's zero time: November 1, 2024 is day
  739190, and \<open>sample_instant day hour\<close> is \<open>hour\<close> hours into day \<open>day\<close> of the
  season that started then.
\<close>

definition sample_instant :: "int \<Rightarrow> int \<Rightarrow> int" where
  "sample_instant day hour = (739190 + day) * (24 * Hour) + hour * Hour"

fun insert_by :: "('a \<Rightarrow> 'a \<Rightarrow> bool) \<Rightarrow> 'a \<Rightarrow> 'a list \<Rightarrow> 'a list" where
  "insert_by lt x [] = [x]"
| "insert_by lt x (y # ys) = (if lt y x then y # insert_by lt x ys else x # y # ys)"

fun insertion_sort :: "('a \<Rightarrow> 'a \<Rightarrow> bool) \<Rightarrow> 'a list \<Rightarrow> 'a list" where
  "insertion_sort lt [] = []"
| "insertion_sort lt (x # xs) = insert_by lt x (insertion_sort lt xs)"

text \<open>
  Three upstream answers: four rows out of order, one of them with a date that does not
  parse; two rows whose dates carry a time of day; and one row dated a nanosecond before
  the end of the 171st day of the season (\<^verbatim>\<open>time.Parse\<close> accepts a fractional second
  after the seconds of the layout).
\<close>

definition sample_days_rows :: "APIRecord list" where
  "sample_days_rows =
     [\<lparr>GasDayStart = ''2024-11-02'', Full = ''95'', Injection = ''-'', Withdrawal = ''12.5''\<rparr>,
      \<lparr>GasDayStart = ''2024-11-01'', Full = ''95.5'', Injection = [], Withdrawal = ''N/A''\<rparr>,
      \<lparr>GasDayStart = ''yesterday'', Full = ''95'', Injection = [], Withdrawal = []\<rparr>,
      \<lparr>GasDayStart = ''2024-11-03'', Full = ''94'', Injection = [], Withdrawal = ''12.5''\<rparr>]"

definition sample_hours_rows :: "APIRecord list" where
  "sample_hours_rows =
     [\<lparr>GasDayStart = ''2024-11-01T18:00:00Z'', Full = ''95.5'', Injection = [], Withdrawal = []\<rparr>,
      \<lparr>GasDayStart = ''2024-11-02T12:00:00Z'', Full = ''95'', Injection = [], Withdrawal = []\<rparr>]"

definition sample_nano_instant :: int where
  "sample_nano_instant = sample_instant 171 0 - 1"

definition sample_nanos_rows :: "APIRecord list" where
  "sample_nanos_rows =
     [\<lparr>GasDayStart = ''2025-04-20T23:59:59.999999999Z'', Full = ''95'', Injection = [],
       Withdrawal = []\<rparr>]"

definition sample_lib :: stdlib where
  "sample_lib =
     \<lparr>time_Parse =
        (\<lambda>layout v.
           map_of
             [((''2006-01-02'', ''2024-11-01''), sample_instant 0 0),
              ((''2006-01-02'', ''2024-11-02''), sample_instant 1 0),
              ((''2006-01-02'', ''2024-11-03''), sample_instant 2 0),
              ((''2006-01-02T15:04:05Z'', ''2024-11-01T18:00:00Z''), sample_instant 0 18),
              ((''2006-01-02T15:04:05Z'', ''2024-11-02T12:00:00Z''), sample_instant 1 12),
              ((''2006-01-02T15:04:05Z'', ''2025-04-20T23:59:59.999999999Z''),
               sample_nano_instant)]
             (layout, v)),
      time_Format = (\<lambda>t layout. layout),
      strconv_ParseFloat =
        (\<lambda>s. case map_of [(''95.5'', 955 / 10), (''95'', 95), (''94'', 94), (''12.5'', 125 / 10)] s of
               Some v \<Rightarrow> v | None \<Rightarrow> 0),
      json_Unmarshal =
        (\<lambda>body.
           case map_of [(''days'', sample_days_rows), (''hours'', sample_hours_rows),
                        (''nanos'', sample_nanos_rows)] body of
             Some rows \<Rightarrow> Inr rows
           | None \<Rightarrow> Inl ''invalid character''),
      sort_Slice = insertion_sort,
      float_to_int_overflow = (\<lambda>x. - (2 ^ 63))\<rparr>"

text \<open>
  A world ten days into the season in which the upstream answers every request with
  status 200 and the given body, and what \<open>fetchSeason\<close> makes of the sample
  answers (for the first one, also the parsed records before sorting; for the third
  one, in that world two hundred days into the season).
\<close>

definition sample_world :: "string \<Rightarrow> world" where
  "sample_world body =
     \<lparr>clock = sample_instant 10 0, http = (\<lambda>n. Response 200 body), requests = 0, slept = []\<rparr>"

definition sample_days_parsed :: "DayRecord list" where
  "sample_days_parsed =
     [\<lparr>Date = sample_instant 1 0, DateStr = ''02 Jan 2006'', Full = 95, Injection = 0,
       Withdrawal = 125 / 10, DaysElapsed = 1, Trend = 0, TrendMA7 = 0\<rparr>,
      \<lparr>Date = sample_instant 0 0, DateStr = ''02 Jan 2006'', Full = 955 / 10, Injection = 0,
       Withdrawal = 0, DaysElapsed = 0, Trend = 0, TrendMA7 = 0\<rparr>,
      \<lparr>Date = sample_instant 2 0, DateStr = ''02 Jan 2006'', Full = 94, Injection = 0,
       Withdrawal = 125 / 10, DaysElapsed = 2, Trend = 0, TrendMA7 = 0\<rparr>]"

definition sample_days_records :: "DayRecord list" where
  "sample_days_records =
     [\<lparr>Date = sample_instant 0 0, DateStr = ''02 Jan 2006'', Full = 955 / 10, Injection = 0,
       Withdrawal = 0, DaysElapsed = 0, Trend = 0, TrendMA7 = 0\<rparr>,
      \<lparr>Date = sample_instant 1 0, DateStr = ''02 Jan 2006'', Full = 95, Injection = 0,
       Withdrawal = 125 / 10, DaysElapsed = 1, Trend = - 1 / 2, TrendMA7 = - 1 / 4\<rparr>,
      \<lparr>Date = sample_instant 2 0, DateStr = ''02 Jan 2006'', Full = 94, Injection = 0,
       Withdrawal = 125 / 10, DaysElapsed = 2, Trend = - 1, TrendMA7 = - 1 / 2\<rparr>]"



text \<open>
  A world in which the upstream answers the first \<open>k\<close> requests with status 503 and the
  later ones with the first sample answer.
\<close>

definition sample_world_busy :: "nat \<Rightarrow> world" where
  "sample_world_busy k =
     \<lparr>clock = sample_instant 10 0,
      http = (\<lambda>n. if n < k then Response 503 ''busy'' else Response 200 ''days''),
      requests = 0, slept = []\<rparr>"

text \<open>A record of day \<open>n\<close> of the season that started on November 1, 2024, with fill \<open>f\<close>.\<close>

definition sample_day :: "int \<Rightarrow> real \<Rightarrow> DayRecord" where
  "sample_day n f =
     \<lparr>Date = sample_instant n 0, DateStr = ''02 Jan 2006'', Full = f, Injection = 0,
      Withdrawal = 0, DaysElapsed = n, Trend = 0, TrendMA7 = 0\<rparr>"

text \<open>
  A season of \<open>n\<close> daily records from November 1, 2024 whose fill is \<open>a + b * day\<close>, and
  three records of the season before it.
\<close>

definition sample_season :: "real \<Rightarrow> real \<Rightarrow> nat \<Rightarrow> DayRecord list" where
  "sample_season a b n = map (\<lambda>i. sample_day (int i) (a + b * real i)) [0 ..< n]"

definition sample_day_2023 :: "int \<Rightarrow> real \<Rightarrow> DayRecord" where
  "sample_day_2023 n f = (sample_day n f)\<lparr>Date := sample_instant (n - 366) 0\<rparr>"

definition sample_history :: "DayRecord list" where
  "sample_history = [sample_day_2023 13 80, sample_day_2023 14 78, sample_day_2023 15 76]"




subsection \<open>The historical analog as the specification words it\<close>

text \<open>
  The specification shifts every record of the preceding season beyond today's elapsed
  day by the offset between the historical fill at today's elapsed day and the current
  fill. This definition follows those words (it is not taken from the code): \<open>None\<close>
  when the preceding season has no record at today's elapsed day.
\<close>

definition spec_history_points ::
  "stdlib \<Rightarrow> DayRecord list \<Rightarrow> int \<Rightarrow> real \<Rightarrow> ScenarioPoint list option" where
  "spec_history_points L recs currentDay currentVal =
     (case find (\<lambda>r. DaysElapsed r = currentDay) recs of
        None \<Rightarrow> None
      | Some today \<Rightarrow>
          Some (map (\<lambda>r. \<lparr>X = real_of_int (DaysElapsed r),
                           Y = Full r - (Full today - currentVal),
                           HoverDate = time_Format L (Date r) ''02 Jan''\<rparr>)
                    (filter (\<lambda>r. currentDay < DaysElapsed r) recs)))"

section \<open>Properties\<close>

subsection \<open>Binary64 arithmetic\<close>

lemma bitlen_nonpos: "n \<le> 0 \<Longrightarrow> bitlen n = 0"
  by (simp add: bitlen.simps)

lemma bitlen_bounds:
  "0 < n \<Longrightarrow> 0 < bitlen n \<and> 2 ^ nat (bitlen n - 1) \<le> n \<and> n < 2 ^ nat (bitlen n)"
proof (induction n rule: bitlen.induct)
  case (1 n)
  show ?case
  proof (cases "n div 2 \<le> 0")
    case True
    with 1(2) have "n = 1"
      by presburger
    then show ?thesis
      by (simp add: bitlen.simps)
  next
    case False
    define m where "m = n div 2"
    define b where "b = bitlen m"
    from False have m: "0 < m"
      by (simp add: m_def)
    with 1 have ih: "0 < b" "2 ^ nat (b - 1) \<le> m" "m < 2 ^ nat b"
      by (simp_all add: m_def b_def)
    have bn: "bitlen n = 1 + b"
      using 1(2) by (subst bitlen.simps) (simp add: b_def m_def)
    have n: "2 * m \<le> n" "n < 2 * m + 2"
      by (simp_all add: m_def)
    have p: "(2::int) ^ nat (1 + b) = 2 * 2 ^ nat b" "(2::int) ^ nat b = 2 * 2 ^ nat (b - 1)"
      using ih(1) by (simp_all add: nat_add_distrib nat_diff_distrib' flip: power_Suc)
    show ?thesis
      unfolding bn using ih n p by auto
  qed
qed

lemma powi_less_exp: "(2::real) powi a < 2 powi b \<Longrightarrow> a < b"
  using power_int_increasing [of b a "2::real"] by (cases "a < b") simp_all

lemma powi_le_exp: "(2::real) powi a \<le> 2 powi b \<Longrightarrow> a \<le> b"
  using power_int_strict_increasing [of b a "2::real"] by (cases "a \<le> b") simp_all

lemma binade_bounds:
  assumes "x \<noteq> 0"
  shows "2 powi binade x \<le> \<bar>x\<bar> \<and> \<bar>x\<bar> < 2 powi (binade x + 1)"
proof (cases "1 \<le> \<bar>x\<bar>")
  case True
  define n where "n = \<lfloor>\<bar>x\<bar>\<rfloor>"
  define b where "b = bitlen n"
  from True have n: "0 < n"
    by (simp add: n_def)
  then have b: "0 < b" "2 ^ nat (b - 1) \<le> n" "n < 2 ^ nat b"
    using bitlen_bounds [of n] by (simp_all add: b_def)
  have bx: "binade x = b - 1"
    using True by (simp add: binade_def b_def n_def)
  have "real_of_int (2 ^ nat (b - 1)) \<le> real_of_int n"
    using b(2) by (simp only: of_int_le_iff)
  also have "\<dots> \<le> \<bar>x\<bar>"
    by (simp add: n_def)
  finally have lo: "2 powi (b - 1) \<le> \<bar>x\<bar>"
    using b(1) by (simp add: power_int_def)
  have "n + 1 \<le> 2 ^ nat b"
    using b(3) by simp
  then have "real_of_int (n + 1) \<le> real_of_int (2 ^ nat b)"
    by (simp only: of_int_le_iff)
  moreover have "\<bar>x\<bar> < real_of_int (n + 1)"
    by (simp add: n_def)
  ultimately have hi: "\<bar>x\<bar> < 2 powi b"
    using b(1) by (simp add: power_int_def)
  from lo hi show ?thesis
    by (simp add: bx)
next
  case False
  define y where "y = 1 / \<bar>x\<bar>"
  define m where "m = \<lceil>y\<rceil> - 1"
  define b where "b = bitlen m"
  from False assms have y: "1 < y"
    by (simp add: y_def)
  then have m: "0 < m"
    by (simp add: m_def less_ceiling_iff)
  then have b: "0 < b" "2 ^ nat (b - 1) \<le> m" "m < 2 ^ nat b"
    using bitlen_bounds [of m] by (simp_all add: b_def)
  have bx: "binade x = - b"
    using False by (simp add: binade_def b_def m_def y_def)
  have my: "real_of_int m < y" "y \<le> real_of_int (m + 1)"
    using ceiling_correct [of y] by (simp_all add: m_def)
  have "m + 1 \<le> 2 ^ nat b"
    using b(3) by simp
  then have "real_of_int (m + 1) \<le> real_of_int (2 ^ nat b)"
    by (simp only: of_int_le_iff)
  with my(2) have "y \<le> 2 powi b"
    using b(1) by (simp add: power_int_def)
  then have lo: "2 powi (- b) \<le> \<bar>x\<bar>"
    using assms by (simp add: y_def power_int_minus field_simps)
  have "real_of_int (2 ^ nat (b - 1)) \<le> real_of_int m"
    using b(2) by (simp only: of_int_le_iff)
  with my(1) have "real_of_int (2 ^ nat (b - 1)) < y"
    by linarith
  then have "2 powi (b - 1) < y"
    using b(1) by (simp add: power_int_def)
  then have "\<bar>x\<bar> < 1 / 2 powi (b - 1)"
    using assms by (simp add: y_def field_simps)
  also have "1 / 2 powi (b - 1) = (2::real) powi (- b + 1)"
    by (simp add: power_int_minus_divide [symmetric])
  finally have hi: "\<bar>x\<bar> < 2 powi (- b + 1)" .
  from lo hi show ?thesis
    by (simp add: bx)
qed

lemma round_even_of_int: "round_even (real_of_int k) = k"
  by (simp add: round_even_def)

lemma round_even_nearest: "\<bar>x - real_of_int (round_even x)\<bar> \<le> \<bar>x - real_of_int k\<bar>"
proof -
  define n where "n = \<lfloor>x\<rfloor>"
  have n: "real_of_int n \<le> x" "x < real_of_int n + 1"
    by (simp_all add: n_def)
  have r: "round_even x = n \<and> x - real_of_int n \<le> 1 / 2
         \<or> round_even x = n + 1 \<and> 1 / 2 \<le> x - real_of_int n"
    by (auto simp add: round_even_def Let_def n_def)
  have k: "k \<le> n \<or> n + 1 \<le> k"
    by linarith
  then have "real_of_int k \<le> real_of_int n \<or> real_of_int n + 1 \<le> real_of_int k"
    by (metis of_int_le_iff of_int_add of_int_1)
  with r n show ?thesis
    by auto
qed

lemma round_even_half: "\<bar>x - real_of_int (round_even x)\<bar> \<le> 1 / 2"
proof -
  define n where "n = \<lfloor>x\<rfloor>"
  have n: "real_of_int n \<le> x" "x < real_of_int n + 1"
    by (simp_all add: n_def)
  have r: "round_even x = n \<and> x - real_of_int n \<le> 1 / 2
         \<or> round_even x = n + 1 \<and> 1 / 2 \<le> x - real_of_int n"
    by (auto simp add: round_even_def Let_def n_def)
  with n show ?thesis
    by auto
qed

lemma float64_exact:
  assumes "x = real_of_int k * 2 powi e" and "\<bar>k\<bar> < 2 ^ 53" and "- 1074 \<le> e"
  shows "float64 x = x"
proof (cases "x = 0")
  case True
  then show ?thesis
    by (simp add: float64_def round_even_def)
next
  case False
  define E where "E = ulp_exp x"
  have "E \<le> e"
  proof (cases "binade x - 52 \<le> - 1074")
    case True
    then show ?thesis
      using assms(3) by (simp add: E_def ulp_exp_def)
  next
    case b: False
    have "2 powi binade x \<le> \<bar>x\<bar>"
      using binade_bounds [OF False] by simp
    also have "\<bar>x\<bar> = \<bar>real_of_int k\<bar> * 2 powi e"
      by (simp add: assms(1) abs_mult power_int_abs)
    also have "\<dots> < 2 ^ 53 * 2 powi e"
    proof -
      have "real_of_int \<bar>k\<bar> < real_of_int (2 ^ 53)"
        using assms(2) by (simp only: of_int_less_iff)
      then show ?thesis
        by simp
    qed
    also have "\<dots> = 2 powi (53 + e)"
      by (simp add: power_int_add)
    finally have "binade x < 53 + e"
      by (rule powi_less_exp)
    then show ?thesis
      using b by (simp add: E_def ulp_exp_def)
  qed
  then obtain j where j: "e = E + int j"
    by (metis zle_iff_zadd)
  have "x / 2 powi E = real_of_int (k * 2 ^ j)"
    by (simp add: assms(1) j power_int_add)
  then have "round_even (x / 2 powi E) = k * 2 ^ j"
    by (simp only: round_even_of_int)
  then have "float64 x = real_of_int (k * 2 ^ j) * 2 powi E"
    unfolding float64_def E_def by simp
  also have "\<dots> = x"
    by (simp add: assms(1) j power_int_add)
  finally show ?thesis .
qed


lemma float64_nearest:
  assumes "c = real_of_int k * 2 powi e" and "\<bar>k\<bar> < 2 ^ 53" and "- 1074 \<le> e"
  shows "\<bar>x - float64 x\<bar> \<le> \<bar>x - c\<bar>"
proof -
  define E where "E = ulp_exp x"
  define m where "m = round_even (x / 2 powi E)"
  have fx: "float64 x = real_of_int m * 2 powi E"
    by (simp add: float64_def m_def E_def)
  have pos: "0 < (2::real) powi E"
    by simp
  have grid: "\<bar>x - float64 x\<bar> \<le> \<bar>x - real_of_int j * 2 powi E\<bar>" for j
  proof -
    have "\<bar>x / 2 powi E - real_of_int m\<bar> \<le> \<bar>x / 2 powi E - real_of_int j\<bar>"
      unfolding m_def by (rule round_even_nearest)
    then have "\<bar>x / 2 powi E - real_of_int m\<bar> * 2 powi E \<le> \<bar>x / 2 powi E - real_of_int j\<bar> * 2 powi E"
      using pos by (simp only: mult_le_cancel_right_pos)
    moreover have "\<bar>x / 2 powi E - real_of_int i\<bar> * 2 powi E = \<bar>x - real_of_int i * 2 powi E\<bar>" for i
    proof -
      have "\<bar>x / 2 powi E - real_of_int i\<bar> * 2 powi E = \<bar>(x / 2 powi E - real_of_int i) * 2 powi E\<bar>"
        by (simp add: abs_mult)
      also have "(x / 2 powi E - real_of_int i) * 2 powi E = x - real_of_int i * 2 powi E"
        by (simp add: field_simps)
      finally show ?thesis .
    qed
    ultimately show ?thesis
      by (simp add: fx)
  qed
  show ?thesis
  proof (cases "E \<le> e")
    case True
    then obtain j where j: "e = E + int j"
      by (metis zle_iff_zadd)
    have "c = real_of_int (k * 2 ^ j) * 2 powi E"
      by (simp add: assms(1) j power_int_add)
    then show ?thesis
      using grid [of "k * 2 ^ j"] by simp
  next
    case False
    show ?thesis
    proof (cases "x = 0")
      case True
      then show ?thesis
        by (simp add: float64_def round_even_def)
    next
      case nz: False
      define b where "b = binade x"
      from False assms(3) have E: "E = b - 52"
        by (simp add: E_def ulp_exp_def b_def)
      have bx: "2 powi b \<le> \<bar>x\<bar>"
        using binade_bounds [OF nz] by (simp add: b_def)
      have "real_of_int \<bar>k\<bar> \<le> real_of_int (2 ^ 53)"
        using assms(2) by (simp only: of_int_le_iff)
      then have "\<bar>c\<bar> \<le> 2 ^ 53 * 2 powi e"
        by (simp add: assms(1) abs_mult power_int_abs)
      also have "\<dots> = 2 powi (53 + e)"
        by (simp add: power_int_add)
      also have "\<dots> \<le> 2 powi b"
        using False E by (intro power_int_increasing) simp_all
      finally have cb: "\<bar>c\<bar> \<le> 2 powi b" .
      define p where "p = sgn x * 2 powi b"
      have p: "p = real_of_int (if 0 < x then 2 ^ 52 else - (2 ^ 52)) * 2 powi E"
        using nz by (simp add: p_def E power_int_diff sgn_if)
      have "\<bar>x - p\<bar> = \<bar>x\<bar> - 2 powi b"
        using bx nz by (simp add: p_def sgn_if abs_if split: if_splits)
      also have "\<dots> \<le> \<bar>x\<bar> - \<bar>c\<bar>"
        using cb by simp
      also have "\<dots> \<le> \<bar>x - c\<bar>"
        by simp
      finally have "\<bar>x - p\<bar> \<le> \<bar>x - c\<bar>" .
      with grid [of "if 0 < x then 2 ^ 52 else - (2 ^ 52)"] show ?thesis
        unfolding p [symmetric] by simp
    qed
  qed
qed

lemma float64_le:
  assumes "x \<le> c" and "c = real_of_int k * 2 powi e" and "\<bar>k\<bar> < 2 ^ 53" and "- 1074 \<le> e"
  shows "float64 x \<le> c"
  using float64_nearest [OF assms(2-4), of x] assms(1) by simp

lemma float64_ge:
  assumes "c \<le> x" and "c = real_of_int k * 2 powi e" and "\<bar>k\<bar> < 2 ^ 53" and "- 1074 \<le> e"
  shows "c \<le> float64 x"
  using float64_nearest [OF assms(2-4), of x] assms(1) by simp


lemma float64_of_int: "\<bar>k\<bar> < 2 ^ 53 \<Longrightarrow> float64 (real_of_int k) = real_of_int k"
  using float64_exact [of "real_of_int k" k 0] by simp

lemma round_even_minus: "round_even (- x) = - round_even x"
proof (cases "x = real_of_int \<lfloor>x\<rfloor>")
  case True
  then obtain n where "x = real_of_int n"
    by metis
  then show ?thesis
    using round_even_of_int [of n] round_even_of_int [of "- n"] by simp
next
  case False
  define n where "n = \<lfloor>x\<rfloor>"
  have "real_of_int n \<le> x" and n2: "x < real_of_int n + 1"
    by (simp_all add: n_def)
  moreover from False have "x \<noteq> real_of_int n"
    by (simp add: n_def)
  ultimately have n: "real_of_int n < x" "x < real_of_int n + 1"
    by linarith+
  then have m: "\<lfloor>- x\<rfloor> = - n - 1"
    by (intro floor_unique) simp_all
  show ?thesis
    unfolding round_even_def Let_def m n_def [symmetric] using n by auto
qed

lemma float64_minus: "float64 (- x) = - float64 x"
  by (simp add: float64_def ulp_exp_def binade_def round_even_minus)

subsection \<open>Cache\<close>

lemma time_Sub_self: "time_Sub t t = 0"
  by (simp add: time_Sub_def minDuration_def maxDuration_def)


lemma time_Sub_lower:
  "b \<le> maxDuration \<Longrightarrow> b \<le> t - u \<Longrightarrow> b \<le> time_Sub t u"
  by (simp add: time_Sub_def Let_def minDuration_def maxDuration_def)

lemma time_Sub_upper:
  "u \<le> t \<Longrightarrow> time_Sub t u \<le> t - u"
  by (simp add: time_Sub_def Let_def minDuration_def maxDuration_def)

text \<open>
  C1. \<open>Cache_Get\<close> returns the stored result exactly when one is present and its age
  (\<^verbatim>\<open>time.Since\<close> of the instant it was stored) is strictly less than the time to live,
  and \<open>None\<close> (a miss) otherwise. \<open>Cache_Set\<close> replaces the stored result and sets the
  instant of storage to the present, so the age restarts at zero; \<open>Cache_Clear\<close> empties
  the cache, so every later \<open>Cache_Get\<close> misses. Hence any two \<open>Cache_Get\<close> at instants
  \<open>t1\<close>, \<open>t2\<close> not before a \<open>Cache_Set\<close> at \<open>t0\<close> and less than the time to live after
  it return the data that was set, and a \<open>Cache_Get\<close> at an instant \<open>t3\<close> at least the
  time to live after \<open>t0\<close> misses. The time to live is a \<^verbatim>\<open>Duration\<close>, hence at most
  \<open>maxDuration\<close>.
\<close>

theorem Cache_contract:
  assumes "ttl c \<le> maxDuration"
      and "t0 \<le> t1" and "t1 - t0 < ttl c"
      and "t0 \<le> t2" and "t2 - t0 < ttl c"
      and "ttl c \<le> t3 - t0"
  shows "((Cache_Get now c = Some x) =
            (data c = Some x \<and> time_Since now (lastFetched c) < ttl c))
       \<and> ((Cache_Get now c = None) =
            (data c = None \<or> \<not> time_Since now (lastFetched c) < ttl c))
       \<and> Cache_Set now d c = \<lparr>data = d, lastFetched = now, ttl = ttl c\<rparr>
       \<and> time_Since now (lastFetched (Cache_Set now d c)) = 0
       \<and> data (Cache_Clear c) = None
       \<and> Cache_Get now (Cache_Clear c) = None
       \<and> Cache_Get t1 (Cache_Set t0 (Some x) c) = Some x
       \<and> Cache_Get t2 (Cache_Set t0 (Some x) c) = Cache_Get t1 (Cache_Set t0 (Some x) c)
       \<and> Cache_Get t3 (Cache_Set t0 d c) = None"
proof (intro conjI)
  show "(Cache_Get now c = Some x) =
          (data c = Some x \<and> time_Since now (lastFetched c) < ttl c)"
    by (auto simp: Cache_Get_def)
  show "(Cache_Get now c = None) =
          (data c = None \<or> \<not> time_Since now (lastFetched c) < ttl c)"
    by (auto simp: Cache_Get_def)
  show "Cache_Set now d c = \<lparr>data = d, lastFetched = now, ttl = ttl c\<rparr>"
    by (simp add: Cache_Set_def)
  show "time_Since now (lastFetched (Cache_Set now d c)) = 0"
    by (simp add: Cache_Set_def time_Since_def time_Sub_self)
  show "data (Cache_Clear c) = None"
    by (simp add: Cache_Clear_def)
  show "Cache_Get now (Cache_Clear c) = None"
    by (simp add: Cache_Clear_def Cache_Get_def)
  have fresh: "Cache_Get t (Cache_Set t0 (Some x) c) = Some x"
    if "t0 \<le> t" and "t - t0 < ttl c" for t
  proof -
    have "time_Sub t t0 \<le> t - t0"
      using that(1) by (rule time_Sub_upper)
    with that(2) show ?thesis
      by (simp add: Cache_Get_def Cache_Set_def time_Since_def)
  qed
  show "Cache_Get t1 (Cache_Set t0 (Some x) c) = Some x"
    using assms(2,3) by (rule fresh)
  show "Cache_Get t2 (Cache_Set t0 (Some x) c) = Cache_Get t1 (Cache_Set t0 (Some x) c)"
    using fresh [OF assms(2,3)] fresh [OF assms(4,5)] by simp
  have "ttl c \<le> time_Sub t3 t0"
    using assms(1,6) by (rule time_Sub_lower)
  then show "Cache_Get t3 (Cache_Set t0 d c) = None"
    by (simp add: Cache_Get_def Cache_Set_def time_Since_def)
qed

text \<open>
  The contract at a cache with the program's two hours to live: a result stored at
  instant 0 is served one hour and ninety minutes later and missed after two hours.
\<close>

theorem Cache_contract_witness:
  "ttl \<lparr>data = None :: nat option, lastFetched = 0, ttl = 2 * Hour\<rparr> \<le> maxDuration
   \<and> (0::int) \<le> 1 * Hour
   \<and> 1 * Hour - 0 < ttl \<lparr>data = None :: nat option, lastFetched = 0, ttl = 2 * Hour\<rparr>
   \<and> Cache_Get (1 * Hour)
        (Cache_Set 0 (Some (42::nat)) \<lparr>data = None :: nat option, lastFetched = 0, ttl = 2 * Hour\<rparr>)
       = Some 42
   \<and> Cache_Get (5400 * Second)
        (Cache_Set 0 (Some (42::nat)) \<lparr>data = None :: nat option, lastFetched = 0, ttl = 2 * Hour\<rparr>)
       = Cache_Get (1 * Hour)
          (Cache_Set 0 (Some 42) \<lparr>data = None :: nat option, lastFetched = 0, ttl = 2 * Hour\<rparr>)
   \<and> Cache_Get (2 * Hour)
        (Cache_Set 0 (Some (42::nat)) \<lparr>data = None :: nat option, lastFetched = 0, ttl = 2 * Hour\<rparr>)
       = None"
proof -
  let ?c = "\<lparr>data = None :: nat option, lastFetched = 0, ttl = 2 * Hour\<rparr>"
  have h1: "ttl ?c \<le> maxDuration"
    by (simp add: Hour_def Second_def Nanosecond_def maxDuration_def)
  have h2: "(0::int) \<le> 1 * Hour"
    by (simp add: Hour_def Second_def Nanosecond_def)
  have h3: "1 * Hour - 0 < ttl ?c"
    by (simp add: Hour_def Second_def Nanosecond_def)
  have h4: "(0::int) \<le> 5400 * Second"
    by (simp add: Second_def Nanosecond_def)
  have h5: "5400 * Second - 0 < ttl ?c"
    by (simp add: Hour_def Second_def Nanosecond_def)
  have h6: "ttl ?c \<le> 2 * Hour - 0"
    by simp
  from Cache_contract [OF h1 h2 h3 h4 h5 h6, of 0 42 "Some 42"] h1 h2 h3
  show ?thesis
    by (elim conjE) (intro conjI; assumption)
qed

subsection \<open>KPI\<close>

text \<open>
  C7. For every non-empty record sequence \<open>buildKPI\<close> returns a KPI whose seven day
  delta is the fill of the last record minus the fill of the seventh record counted
  back from the end (the last record being the first), and zero when there are fewer
  than seven records.
\<close>

theorem buildKPI_Delta7D:
  assumes "records \<noteq> []"
  shows "\<exists>kpi. buildKPI L records scenarios = Some kpi
           \<and> Delta7D kpi =
               (if 7 \<le> length records then Full (last records) - Full (rev records ! 6) else 0)"
  using assms by (simp add: buildKPI_def Let_def last_conv_nth rev_nth)

theorem buildKPI_Delta7D_witness:
  "map (\<lambda>i. sample_day (int i) (90 - real i)) [0 ..< 8] \<noteq> []
   \<and> (\<exists>kpi. buildKPI sample_lib (map (\<lambda>i. sample_day (int i) (90 - real i)) [0 ..< 8]) []
               = Some kpi
            \<and> Delta7D kpi = - 6)
   \<and> (\<exists>kpi. buildKPI sample_lib [sample_day 0 90, sample_day 1 80] [] = Some kpi
            \<and> Delta7D kpi = 0)"
proof -
  let ?rs = "map (\<lambda>i. sample_day (int i) (90 - real i)) [0 ..< 8]"
  have ne: "?rs \<noteq> []"
    by (simp add: upt_rec)
  have "Full (last ?rs) - Full (rev ?rs ! 6) = - 6"
    by (simp add: upt_rec sample_day_def)
  with buildKPI_Delta7D [OF ne, of sample_lib "[]"]
  have a: "\<exists>kpi. buildKPI sample_lib ?rs [] = Some kpi \<and> Delta7D kpi = - 6"
    by simp
  have "[sample_day 0 90, sample_day 1 80] \<noteq> []"
    by simp
  from buildKPI_Delta7D [OF this, of sample_lib "[]"]
  have b: "\<exists>kpi. buildKPI sample_lib [sample_day 0 90, sample_day 1 80] [] = Some kpi
              \<and> Delta7D kpi = 0"
    by simp
  from ne a b show ?thesis
    by (intro conjI)
qed

subsection \<open>Linear regression\<close>

lemma regression_sums:
  "fold (\<lambda>r (sx, sy, sxy, sx2).
           (sx + real_of_int (DaysElapsed r), sy + Full r,
            sxy + real_of_int (DaysElapsed r) * Full r,
            sx2 + real_of_int (DaysElapsed r) * real_of_int (DaysElapsed r)))
        records (a, b, c, d)
   = (a + (\<Sum>r\<leftarrow>records. real_of_int (DaysElapsed r)),
      b + (\<Sum>r\<leftarrow>records. Full r),
      c + (\<Sum>r\<leftarrow>records. real_of_int (DaysElapsed r) * Full r),
      d + (\<Sum>r\<leftarrow>records. real_of_int (DaysElapsed r) * real_of_int (DaysElapsed r)))"
  by (induction records arbitrary: a b c d) simp_all

lemma spread_Cons: "spread (k # ks) = spread ks + (\<Sum>j\<leftarrow>ks. (k - j) * (k - j))"
proof -
  have "(\<Sum>j\<leftarrow>ks. (k - j) * (k - j)) =
          int (length ks) * (k * k) - 2 * k * (\<Sum>j\<leftarrow>ks. j) + (\<Sum>j\<leftarrow>ks. j * j)"
    by (induction ks) (simp_all add: algebra_simps)
  then show ?thesis
    by (simp add: spread_def algebra_simps)
qed

lemma sum_squares_nonneg: "0 \<le> (\<Sum>j\<leftarrow>ks. (k - j) * (k - j :: int))"
  by (induction ks) simp_all

lemma sum_squares_pos: "j \<in> set ks \<Longrightarrow> j \<noteq> k \<Longrightarrow> 1 \<le> (\<Sum>j\<leftarrow>ks. (k - j) * (k - j :: int))"
proof (induction ks)
  case Nil
  then show ?case by simp
next
  case (Cons a ks)
  show ?case
  proof (cases "a = k")
    case True
    with Cons show ?thesis by auto
  next
    case False
    then have "0 < (k - a) * (k - a)"
      by (auto simp add: zero_less_mult_iff)
    with sum_squares_nonneg [of k ks] show ?thesis by simp
  qed
qed

lemma spread_nonneg: "0 \<le> spread ks"
proof (induction ks)
  case Nil
  then show ?case by (simp add: spread_def)
next
  case (Cons k ks)
  with sum_squares_nonneg [of k ks] show ?case
    by (simp add: spread_Cons)
qed

lemma spread_pos: "i \<in> set ks \<Longrightarrow> j \<in> set ks \<Longrightarrow> i \<noteq> j \<Longrightarrow> 1 \<le> spread ks"
proof (induction ks)
  case Nil
  then show ?case by simp
next
  case (Cons k ks)
  show ?case
  proof (cases "i \<in> set ks \<and> j \<in> set ks")
    case True
    with Cons.IH Cons.prems(3) have "1 \<le> spread ks" by simp
    with sum_squares_nonneg [of k ks] show ?thesis
      by (simp add: spread_Cons)
  next
    case False
    with Cons.prems obtain m where "m \<in> set ks" "m \<noteq> k"
      by auto
    then have "1 \<le> (\<Sum>j\<leftarrow>ks. (k - j) * (k - j))"
      by (rule sum_squares_pos)
    with spread_nonneg [of ks] show ?thesis
      by (simp add: spread_Cons)
  qed
qed

lemma spread_real:
  "real (length records) * (\<Sum>r\<leftarrow>records. real_of_int (DaysElapsed r) * real_of_int (DaysElapsed r))
     - (\<Sum>r\<leftarrow>records. real_of_int (DaysElapsed r)) * (\<Sum>r\<leftarrow>records. real_of_int (DaysElapsed r))
   = real_of_int (spread (map DaysElapsed records))"
proof -
  have a: "(\<Sum>r\<leftarrow>records. real_of_int (DaysElapsed r)) = real_of_int (\<Sum>k\<leftarrow>map DaysElapsed records. k)"
    by (induction records) simp_all
  have b: "(\<Sum>r\<leftarrow>records. real_of_int (DaysElapsed r) * real_of_int (DaysElapsed r))
             = real_of_int (\<Sum>k\<leftarrow>map DaysElapsed records. k * k)"
    by (induction records) simp_all
  show ?thesis
    unfolding a b by (simp add: spread_def)
qed

lemma linear_sums:
  assumes "\<forall>r \<in> set records. Full r = intercept + slope * real_of_int (DaysElapsed r)"
  shows "(\<Sum>r\<leftarrow>records. Full r)
           = real (length records) * intercept + slope * (\<Sum>r\<leftarrow>records. real_of_int (DaysElapsed r))"
    and "(\<Sum>r\<leftarrow>records. real_of_int (DaysElapsed r) * Full r)
           = intercept * (\<Sum>r\<leftarrow>records. real_of_int (DaysElapsed r))
             + slope * (\<Sum>r\<leftarrow>records. real_of_int (DaysElapsed r) * real_of_int (DaysElapsed r))"
  using assms by (induction records) (simp_all add: algebra_simps)

lemma linearRegression_line:
  assumes "2 \<le> length records"
      and "\<exists>r \<in> set records. \<exists>r' \<in> set records. DaysElapsed r \<noteq> DaysElapsed r'"
      and "\<forall>r \<in> set records. Full r = intercept + slope * real_of_int (DaysElapsed r)"
  shows "linearRegression records = (slope, intercept)"
proof -
  define n where "n = real (length records)"
  define sx where "sx = (\<Sum>r\<leftarrow>records. real_of_int (DaysElapsed r))"
  define sx2 where "sx2 = (\<Sum>r\<leftarrow>records. real_of_int (DaysElapsed r) * real_of_int (DaysElapsed r))"
  define sy where "sy = (\<Sum>r\<leftarrow>records. Full r)"
  define sxy where "sxy = (\<Sum>r\<leftarrow>records. real_of_int (DaysElapsed r) * Full r)"
  define d where "d = n * sx2 - sx * sx"
  have n: "2 \<le> n"
    using assms(1) by (simp add: n_def)
  from assms(2) obtain r r' where "r \<in> set records" "r' \<in> set records"
      "DaysElapsed r \<noteq> DaysElapsed r'"
    by blast
  then have "1 \<le> spread (map DaysElapsed records)"
    by (intro spread_pos [of "DaysElapsed r" _ "DaysElapsed r'"]) simp_all
  then have d: "1 \<le> d"
    unfolding d_def n_def sx_def sx2_def spread_real by simp
  have sy: "sy = n * intercept + slope * sx"
    unfolding sy_def n_def sx_def using assms(3) by (rule linear_sums(1))
  have sxy: "sxy = intercept * sx + slope * sx2"
    unfolding sxy_def sx_def sx2_def using assms(3) by (rule linear_sums(2))
  have num: "n * sxy - sx * sy = slope * d"
    by (simp add: sy sxy d_def algebra_simps)
  have slope: "(n * sxy - sx * sy) / d = slope"
    using d by (simp add: num)
  have intercept: "(sy - slope * sx) / n = intercept"
    using n by (simp add: sy)
  have guard: "\<not> \<bar>d\<bar> < 1 / 10 ^ 10"
    using d by simp
  have "linearRegression records =
          (if \<bar>d\<bar> < 1 / 10 ^ 10 then (0, sy / n)
           else ((n * sxy - sx * sy) / d, (sy - (n * sxy - sx * sy) / d * sx) / n))"
    using n
    by (simp add: linearRegression_def regression_sums Let_def n_def sx_def sx2_def sy_def
        sxy_def d_def)
  with guard slope intercept show ?thesis
    by simp
qed



subsection \<open>Scenarios\<close>

lemma history_step_apply:
  "history_step L currentDay currentVal r (pts, base, found) =
     (if currentDay < DaysElapsed r
      then (pts @ [\<lparr>X = real_of_int (DaysElapsed r),
                      Y = currentVal + (Full r - (if found then base else Full r)),
                      HoverDate = time_Format L (Date r) ''02 Jan''\<rparr>],
            if found then base else Full r, True)
      else (pts, base, found))"
  by (simp add: history_step_def Let_def)

lemma fold_history_step:
  "fold (history_step L currentDay currentVal) recs (pts, base, found) =
     (let beyond = filter (\<lambda>r. currentDay < DaysElapsed r) recs;
          base1 = (if found \<or> beyond = [] then base else Full (hd beyond))
      in (pts @ map (\<lambda>r. \<lparr>X = real_of_int (DaysElapsed r),
                           Y = currentVal + (Full r - base1),
                           HoverDate = time_Format L (Date r) ''02 Jan''\<rparr>) beyond,
          base1, found \<or> beyond \<noteq> []))"
proof (induction recs arbitrary: pts base found)
  case Nil
  then show ?case by simp
next
  case (Cons r recs)
  show ?case
    by (simp add: history_step_apply Cons.IH Let_def)
qed

lemma history_points:
  "fst (fold (history_step L currentDay currentVal) recs ([], 0, False)) =
     map (\<lambda>r. \<lparr>X = real_of_int (DaysElapsed r),
                Y = currentVal + (Full r - Full (hd (filter (\<lambda>r. currentDay < DaysElapsed r) recs))),
                HoverDate = time_Format L (Date r) ''02 Jan''\<rparr>)
         (filter (\<lambda>r. currentDay < DaysElapsed r) recs)"
  by (cases "filter (\<lambda>r. currentDay < DaysElapsed r) recs = []")
     (simp_all add: fold_history_step Let_def)

lemma last_makeProjectionPoints:
  "last (makeProjectionPoints L startDay startVal slope totalDays startDate 50) =
     \<lparr>X = real_of_int startDay + totalDays,
      Y = startVal + slope * totalDays,
      HoverDate = time_Format L (startDate + hours_Duration L (totalDays * 24)) ''02 Jan 2006''\<rparr>"
  by (simp add: makeProjectionPoints_def last_map Let_def mult.commute)

lemma generateScenarios_short:
  "length current < trendWindow \<Longrightarrow> generateScenarios L current allSeasons y = []"
  by (simp add: generateScenarios_def)

lemma generateScenarios_long:
  assumes "trendWindow \<le> length current"
  shows "generateScenarios L current allSeasons y =
     (let currentVal = Full (last current);
          currentDay = DaysElapsed (last current);
          lastDate = Date (last current);
          slope = fst (linearRegression (drop (length current - trendWindow) current));
          days = (criticalThreshold - currentVal) / slope;
          ss = slope * stressMultiplier;
          sd = (criticalThreshold - currentVal) / ss;
          beyond = filter (\<lambda>r. currentDay < DaysElapsed r)
                     (case allSeasons (y - 1) of Some recs \<Rightarrow> recs | None \<Rightarrow> [])
      in (if slope < 0
          then [\<lparr>Name = ''Linear'', Label = label_Linear,
                 Color = ''#c0392b'', Dash = ''dot'',
                 Points = makeProjectionPoints L currentDay currentVal slope days lastDate 50,
                 HitDate = time_Format L (lastDate + hours_Duration L (days * 24)) ''02.01.2006'',
                 Slope = slope,
                 DaysLeft = float_to_int L days\<rparr>,
                \<lparr>Name = ''Stress'', Label = label_Stress,
                 Color = ''#800000'', Dash = ''dashdot'',
                 Points = makeProjectionPoints L currentDay currentVal ss sd lastDate 50,
                 HitDate = time_Format L (lastDate + hours_Duration L (sd * 24)) ''02.01.2006'',
                 Slope = ss,
                 DaysLeft = float_to_int L sd\<rparr>]
          else [])
         @ (if beyond = [] then []
            else [\<lparr>Name = ''History'', Label = label_History (y - 1),
                   Color = ''#d35400'', Dash = ''dash'',
                   Points = map (\<lambda>r. \<lparr>X = real_of_int (DaysElapsed r),
                                       Y = currentVal + (Full r - Full (hd beyond)),
                                       HoverDate = time_Format L (Date r) ''02 Jan''\<rparr>) beyond,
                   HitDate = [], Slope = 0, DaysLeft = 0\<rparr>]))"
proof -
  have ne: "current \<noteq> []"
    using assms by (auto simp: trendWindow_def)
  have idx: "current ! (length current - Suc 0) = last current"
    using ne by (simp add: last_conv_nth)
  have start: "nat (max (int (length current) - int trendWindow) 0) = length current - trendWindow"
    by simp
  show ?thesis
    using assms
    unfolding generateScenarios_def start
    by (cases "allSeasons (y - 1)") (simp_all add: idx history_points Let_def)
qed

lemma sample_season_regression:
  assumes "2 \<le> n"
  shows "linearRegression (sample_season a b n) = (b, a)"
proof -
  have len: "2 \<le> length (sample_season a b n)"
    using assms by (simp add: sample_season_def)
  have "(\<lambda>i. sample_day (int i) (a + b * real i)) 0 \<in> set (sample_season a b n)"
    unfolding sample_season_def set_map set_upt by (rule imageI) (use assms in simp)
  moreover have "(\<lambda>i. sample_day (int i) (a + b * real i)) 1 \<in> set (sample_season a b n)"
    unfolding sample_season_def set_map set_upt by (rule imageI) (use assms in simp)
  moreover have "DaysElapsed ((\<lambda>i. sample_day (int i) (a + b * real i)) 0)
                   \<noteq> DaysElapsed ((\<lambda>i. sample_day (int i) (a + b * real i)) 1)"
    by (simp add: sample_day_def)
  ultimately have two:
    "\<exists>r \<in> set (sample_season a b n). \<exists>r' \<in> set (sample_season a b n).
       DaysElapsed r \<noteq> DaysElapsed r'"
    by blast
  have line: "\<forall>r \<in> set (sample_season a b n). Full r = a + b * real_of_int (DaysElapsed r)"
    by (auto simp add: sample_season_def sample_day_def)
  from len two line show ?thesis
    by (rule linearRegression_line)
qed

lemma generateScenarios_parts:
  assumes "trendWindow \<le> length current"
      and "slope = fst (linearRegression (drop (length current - trendWindow) current))"
      and "currentVal = Full (last current)"
      and "currentDay = DaysElapsed (last current)"
      and "lastDate = Date (last current)"
      and "days = (criticalThreshold - currentVal) / slope"
      and "ss = slope * stressMultiplier"
      and "sd = (criticalThreshold - currentVal) / ss"
      and "beyond = filter (\<lambda>r. currentDay < DaysElapsed r)
                      (case allSeasons (y - 1) of Some recs \<Rightarrow> recs | None \<Rightarrow> [])"
  shows "generateScenarios L current allSeasons y =
     (if slope < 0
      then [\<lparr>Name = ''Linear'', Label = label_Linear,
             Color = ''#c0392b'', Dash = ''dot'',
             Points = makeProjectionPoints L currentDay currentVal slope days lastDate 50,
             HitDate = time_Format L (lastDate + hours_Duration L (days * 24)) ''02.01.2006'',
             Slope = slope,
             DaysLeft = float_to_int L days\<rparr>,
            \<lparr>Name = ''Stress'', Label = label_Stress,
             Color = ''#800000'', Dash = ''dashdot'',
             Points = makeProjectionPoints L currentDay currentVal ss sd lastDate 50,
             HitDate = time_Format L (lastDate + hours_Duration L (sd * 24)) ''02.01.2006'',
             Slope = ss,
             DaysLeft = float_to_int L sd\<rparr>]
      else [])
     @ (if beyond = [] then []
        else [\<lparr>Name = ''History'', Label = label_History (y - 1),
               Color = ''#d35400'', Dash = ''dash'',
               Points = map (\<lambda>r. \<lparr>X = real_of_int (DaysElapsed r),
                                   Y = currentVal + (Full r - Full (hd beyond)),
                                   HoverDate = time_Format L (Date r) ''02 Jan''\<rparr>) beyond,
               HitDate = [], Slope = 0, DaysLeft = 0\<rparr>])"
  unfolding assms(2-) generateScenarios_long [OF assms(1)] Let_def ..


lemma sample_season_last:
  "last (sample_season a b 14) = sample_day 13 (a + b * 13)"
  by (simp add: sample_season_def last_map)

lemma sample_scenarios:
  "generateScenarios L (sample_season a b 14) allSeasons y =
     (if b < 0 then
     [\<lparr>Name = ''Linear'', Label = label_Linear,
       Color = ''#c0392b'', Dash = ''dot'',
       Points = makeProjectionPoints L 13 (a + b * 13) b ((criticalThreshold - (a + b * 13)) / b)
                  (sample_instant 13 0) 50,
       HitDate = time_Format L (sample_instant 13 0
                   + hours_Duration L ((criticalThreshold - (a + b * 13)) / b * 24)) ''02.01.2006'',
       Slope = b,
       DaysLeft = float_to_int L ((criticalThreshold - (a + b * 13)) / b)\<rparr>,
      \<lparr>Name = ''Stress'', Label = label_Stress,
       Color = ''#800000'', Dash = ''dashdot'',
       Points = makeProjectionPoints L 13 (a + b * 13) (b * stressMultiplier)
                  ((criticalThreshold - (a + b * 13)) / (b * stressMultiplier))
                  (sample_instant 13 0) 50,
       HitDate = time_Format L (sample_instant 13 0
                   + hours_Duration L ((criticalThreshold - (a + b * 13)) / (b * stressMultiplier) * 24))
                   ''02.01.2006'',
       Slope = b * stressMultiplier,
       DaysLeft = float_to_int L ((criticalThreshold - (a + b * 13)) / (b * stressMultiplier))\<rparr>]
      else [])
     @ (if filter (\<lambda>r. 13 < DaysElapsed r)
              (case allSeasons (y - 1) of Some recs \<Rightarrow> recs | None \<Rightarrow> []) = [] then []
        else [\<lparr>Name = ''History'', Label = label_History (y - 1),
               Color = ''#d35400'', Dash = ''dash'',
               Points = map (\<lambda>r. \<lparr>X = real_of_int (DaysElapsed r),
                                   Y = a + b * 13 + (Full r - Full (hd (filter (\<lambda>r. 13 < DaysElapsed r)
              (case allSeasons (y - 1) of Some recs \<Rightarrow> recs | None \<Rightarrow> [])))),
                                   HoverDate = time_Format L (Date r) ''02 Jan''\<rparr>) (filter (\<lambda>r. 13 < DaysElapsed r)
              (case allSeasons (y - 1) of Some recs \<Rightarrow> recs | None \<Rightarrow> [])),
               HitDate = [], Slope = 0, DaysLeft = 0\<rparr>])"
proof -
  have len: "trendWindow \<le> length (sample_season a b 14)"
    by (simp add: sample_season_def trendWindow_def)
  have slope: "b = fst (linearRegression (drop (length (sample_season a b 14) - trendWindow)
                                            (sample_season a b 14)))"
  proof -
    have "length (sample_season a b 14) - trendWindow = 0"
      by (simp add: sample_season_def trendWindow_def)
    then show ?thesis
      by (simp add: sample_season_regression)
  qed
  have cv: "a + b * 13 = Full (last (sample_season a b 14))"
    by (simp add: sample_season_last sample_day_def)
  have cd: "13 = DaysElapsed (last (sample_season a b 14))"
    by (simp add: sample_season_last sample_day_def)
  have ld: "sample_instant 13 0 = Date (last (sample_season a b 14))"
    by (simp add: sample_season_last sample_day_def)
  show ?thesis
    by (rule generateScenarios_parts [OF len slope cv cd ld refl refl refl refl])
qed





text \<open>
  C10 (amended). Whenever the trailing slope is negative, the first two scenarios are
  Linear and Stress, the Stress slope is the Linear slope times \<open>stressMultiplier\<close>, and
  the Stress crossing time (the end of its projection, counted from the current elapsed
  day) is the Linear crossing time divided by \<open>stressMultiplier\<close>. The Stress crossing
  is strictly sooner than the Linear one when the current fill is above the critical
  threshold; when the current fill is at or below it, the Stress crossing is not sooner.
\<close>

theorem stress_crosses_sooner:
  assumes "trendWindow \<le> length current"
      and "slope = fst (linearRegression (drop (length current - trendWindow) current))"
      and "currentVal = Full (last current)"
      and "currentDay = DaysElapsed (last current)"
      and "scenarios = generateScenarios L current allSeasons y"
      and "slope < 0"
  shows "Name (scenarios ! 0) = ''Linear'' \<and> Name (scenarios ! 1) = ''Stress''
       \<and> Slope (scenarios ! 0) = slope
       \<and> Slope (scenarios ! 1) = Slope (scenarios ! 0) * stressMultiplier
       \<and> X (last (Points (scenarios ! 0))) - real_of_int currentDay
           = (criticalThreshold - currentVal) / slope
       \<and> X (last (Points (scenarios ! 1))) - real_of_int currentDay
           = (X (last (Points (scenarios ! 0))) - real_of_int currentDay) / stressMultiplier
       \<and> (criticalThreshold < currentVal \<longrightarrow>
             X (last (Points (scenarios ! 1))) < X (last (Points (scenarios ! 0))))
       \<and> (currentVal \<le> criticalThreshold \<longrightarrow>
             X (last (Points (scenarios ! 0))) \<le> X (last (Points (scenarios ! 1))))"
proof -
  define days where "days = (criticalThreshold - currentVal) / slope"
  define ss where "ss = slope * stressMultiplier"
  define sd where "sd = (criticalThreshold - currentVal) / ss"
  define beyond where "beyond = filter (\<lambda>r. currentDay < DaysElapsed r)
                      (case allSeasons (y - 1) of Some recs \<Rightarrow> recs | None \<Rightarrow> [])"
  note parts = generateScenarios_parts
    [where L = L and allSeasons = allSeasons and y = y and beyond = beyond
       and current = current and slope = slope and currentVal = currentVal
       and currentDay = currentDay and lastDate = "Date (last current)" and days = days
       and ss = ss and sd = sd, OF assms(1-4) refl days_def ss_def sd_def beyond_def]
  have lin: "X (last (Points (scenarios ! 0))) = real_of_int currentDay + days"
    and str: "X (last (Points (scenarios ! 1))) = real_of_int currentDay + sd"
    and names: "Name (scenarios ! 0) = ''Linear''" "Name (scenarios ! 1) = ''Stress''"
    and slopes: "Slope (scenarios ! 0) = slope" "Slope (scenarios ! 1) = ss"
    unfolding assms(5) parts using assms(6) by (simp_all add: last_makeProjectionPoints)
  have sd: "sd = days / stressMultiplier"
    by (simp add: sd_def ss_def days_def)
  have sooner: "sd < days" if "criticalThreshold < currentVal"
  proof -
    have "0 < days"
      unfolding days_def using that assms(6) by (simp add: divide_neg_neg)
    then show ?thesis
      by (simp add: sd stressMultiplier_def)
  qed
  have later: "days \<le> sd" if "currentVal \<le> criticalThreshold"
  proof -
    have "days \<le> 0"
      unfolding days_def using that assms(6) by (simp add: divide_nonneg_neg)
    then show ?thesis
      by (simp add: sd stressMultiplier_def)
  qed
  show ?thesis
    using sooner later
    by (simp add: lin str names slopes sd ss_def days_def [symmetric] del: One_nat_def)
qed

theorem stress_crosses_sooner_witness:
  "trendWindow \<le> length (sample_season 100 (- 4) 14)
   \<and> fst (linearRegression (drop (length (sample_season 100 (- 4) 14) - trendWindow)
                                 (sample_season 100 (- 4) 14))) = - 4
   \<and> criticalThreshold < Full (last (sample_season 100 (- 4) 14))
   \<and> Slope (generateScenarios sample_lib (sample_season 100 (- 4) 14) Map.empty 2024 ! 1)
       = Slope (generateScenarios sample_lib (sample_season 100 (- 4) 14) Map.empty 2024 ! 0)
         * stressMultiplier
   \<and> X (last (Points (generateScenarios sample_lib (sample_season 100 (- 4) 14) Map.empty 2024 ! 0)))
       - real_of_int 13 = 19 / 2
   \<and> X (last (Points (generateScenarios sample_lib (sample_season 100 (- 4) 14) Map.empty 2024 ! 1)))
       < X (last (Points (generateScenarios sample_lib (sample_season 100 (- 4) 14) Map.empty 2024 ! 0)))"
proof -
  let ?cur = "sample_season 100 (- 4) 14"
  let ?gs = "generateScenarios sample_lib ?cur Map.empty 2024"
  have len: "trendWindow \<le> length ?cur"
    by (simp add: sample_season_def trendWindow_def)
  have zero: "length ?cur - trendWindow = 0"
    by (simp add: sample_season_def trendWindow_def)
  have slope: "- 4 = fst (linearRegression (drop (length ?cur - trendWindow) ?cur))"
    by (simp add: zero sample_season_regression)
  have cv: "48 = Full (last ?cur)"
    by (simp add: sample_season_last sample_day_def)
  have cd: "13 = DaysElapsed (last ?cur)"
    by (simp add: sample_season_last sample_day_def)
  have neg: "(- 4 :: real) < 0"
    by simp
  have above: "criticalThreshold < 48"
    by (simp add: criticalThreshold_def)
  note a = stress_crosses_sooner [OF len slope cv cd refl neg,
      where L = sample_lib and allSeasons = Map.empty and y = 2024]
  note c2 = conjunct2
  have s: "Slope (?gs ! 1) = Slope (?gs ! 0) * stressMultiplier"
    using a [THEN c2, THEN c2, THEN c2, THEN conjunct1] .
  have x: "X (last (Points (?gs ! 0))) - real_of_int 13 = 19 / 2"
    using a [THEN c2, THEN c2, THEN c2, THEN c2, THEN conjunct1]
    by (simp add: criticalThreshold_def)
  have lt: "X (last (Points (?gs ! 1))) < X (last (Points (?gs ! 0)))"
    using a [THEN c2, THEN c2, THEN c2, THEN c2, THEN c2, THEN c2, THEN conjunct1, rule_format,
        OF above] .
  from len slope [symmetric] above [unfolded cv] s x lt show ?thesis
    by (intro conjI)
qed

text \<open>
  With fills \<open>18 - day\<close> over days 0 to 13 the current fill is 5, below the threshold:
  the Linear projection ends at elapsed day 8 and the Stress projection at day 9, so
  the Stress crossing is not sooner.
\<close>

theorem stress_crosses_sooner_counterexample:
  "fst (linearRegression (drop (length (sample_season 18 (- 1) 14) - trendWindow)
                               (sample_season 18 (- 1) 14))) < 0
   \<and> Name (generateScenarios sample_lib (sample_season 18 (- 1) 14) Map.empty 2024 ! 0) = ''Linear''
   \<and> Name (generateScenarios sample_lib (sample_season 18 (- 1) 14) Map.empty 2024 ! 1) = ''Stress''
   \<and> X (last (Points (generateScenarios sample_lib (sample_season 18 (- 1) 14) Map.empty 2024 ! 0)))
       = 8
   \<and> X (last (Points (generateScenarios sample_lib (sample_season 18 (- 1) 14) Map.empty 2024 ! 1)))
       = 9
   \<and> \<not> X (last (Points (generateScenarios sample_lib (sample_season 18 (- 1) 14) Map.empty 2024 ! 1)))
         < X (last (Points (generateScenarios sample_lib (sample_season 18 (- 1) 14) Map.empty 2024 ! 0)))"
proof -
  have zero: "length (sample_season 18 (- 1) 14) - trendWindow = 0"
    by (simp add: sample_season_def trendWindow_def)
  show ?thesis
    by (simp add: sample_scenarios zero sample_season_regression last_makeProjectionPoints
        criticalThreshold_def stressMultiplier_def)
qed

text \<open>
  C6 (amended). For a current season of at least \<open>trendWindow\<close> records, let \<open>beyond\<close> be
  the records of the season of the year before \<open>currentStartYear\<close> whose elapsed day
  exceeds the current last elapsed day, in order (none when that season is absent or
  empty). If \<open>beyond\<close> is empty, no History scenario is emitted. Otherwise the History
  scenario is the last scenario and the only one of that name; it has exactly one point
  for every record of \<open>beyond\<close>, at the record's elapsed day, with the record's fill
  shifted by the offset between the current fill and the fill of the first record of
  \<open>beyond\<close> (not the fill at today's elapsed day), so that the first point has the
  current fill exactly.
\<close>

theorem history_scenario:
  assumes "trendWindow \<le> length current"
      and "currentVal = Full (last current)"
      and "currentDay = DaysElapsed (last current)"
      and "beyond = filter (\<lambda>r. currentDay < DaysElapsed r)
                      (case allSeasons (y - 1) of Some recs \<Rightarrow> recs | None \<Rightarrow> [])"
      and "scenarios = generateScenarios L current allSeasons y"
  shows "(beyond = [] \<longrightarrow> (\<forall>s \<in> set scenarios. Name s \<noteq> ''History''))
       \<and> (beyond \<noteq> [] \<longrightarrow>
             scenarios \<noteq> []
           \<and> Name (last scenarios) = ''History''
           \<and> (\<forall>s \<in> set (butlast scenarios). Name s \<noteq> ''History'')
           \<and> Points (last scenarios) =
               map (\<lambda>r. \<lparr>X = real_of_int (DaysElapsed r),
                          Y = currentVal + (Full r - Full (hd beyond)),
                          HoverDate = time_Format L (Date r) ''02 Jan''\<rparr>) beyond
           \<and> X (hd (Points (last scenarios))) = real_of_int (DaysElapsed (hd beyond))
           \<and> Y (hd (Points (last scenarios))) = currentVal)"
proof -
  note parts = generateScenarios_parts
    [where L = L and allSeasons = allSeasons and y = y and beyond = beyond
       and current = current and currentVal = currentVal
       and currentDay = currentDay, OF assms(1) refl assms(2,3) refl refl refl refl assms(4)]
  show ?thesis
  proof (cases "beyond = []")
    case True
    then show ?thesis
      unfolding assms(5) parts by auto
  next
    case False
    then show ?thesis
      unfolding assms(5) parts by (auto simp add: hd_map)
  qed
qed

theorem history_scenario_witness:
  "trendWindow \<le> length (sample_season 90 0 14)
   \<and> filter (\<lambda>r. DaysElapsed (last (sample_season 90 0 14)) < DaysElapsed r) sample_history
       = [sample_day_2023 14 78, sample_day_2023 15 76]
   \<and> Name (last (generateScenarios sample_lib (sample_season 90 0 14)
                    [2023 \<mapsto> sample_history] 2024)) = ''History''
   \<and> map Y (Points (last (generateScenarios sample_lib (sample_season 90 0 14)
                             [2023 \<mapsto> sample_history] 2024))) = [90, 88]
   \<and> Y (hd (Points (last (generateScenarios sample_lib (sample_season 90 0 14)
                             [2023 \<mapsto> sample_history] 2024)))) = Full (last (sample_season 90 0 14))
   \<and> ''History'' \<notin> Name ` set (generateScenarios sample_lib (sample_season 90 0 14) Map.empty 2024)"
proof -
  let ?cur = "sample_season 90 0 14"
  let ?gs = "generateScenarios sample_lib ?cur [2023 \<mapsto> sample_history] 2024"
  have len: "trendWindow \<le> length ?cur"
    by (simp add: sample_season_def trendWindow_def)
  have beyond: "[sample_day_2023 14 78, sample_day_2023 15 76] =
      filter (\<lambda>r. DaysElapsed (last ?cur) < DaysElapsed r)
        (case [2023 \<mapsto> sample_history] (2024 - 1 :: int) of Some recs \<Rightarrow> recs | None \<Rightarrow> [])"
    by (simp add: sample_season_last sample_history_def sample_day_2023_def sample_day_def)
  have beyond': "filter (\<lambda>r. DaysElapsed (last ?cur) < DaysElapsed r) sample_history
       = [sample_day_2023 14 78, sample_day_2023 15 76]"
    by (simp add: sample_season_last sample_history_def sample_day_2023_def sample_day_def)
  have ne: "[sample_day_2023 14 78, sample_day_2023 15 76] \<noteq> []"
    by simp
  note a = history_scenario
    [where L = sample_lib and current = ?cur and allSeasons = "[2023 \<mapsto> sample_history]"
       and y = 2024 and currentVal = "Full (last ?cur)"
       and currentDay = "DaysElapsed (last ?cur)"
       and beyond = "[sample_day_2023 14 78, sample_day_2023 15 76]" and scenarios = ?gs,
     OF len refl refl beyond refl, THEN conjunct2, rule_format, OF ne]
  note c2 = conjunct2
  have n: "Name (last ?gs) = ''History''"
    using a [THEN c2, THEN conjunct1] .
  have p: "map Y (Points (last ?gs)) = [90, 88]"
    using a [THEN c2, THEN c2, THEN c2, THEN conjunct1]
    by (simp add: sample_season_last sample_day_2023_def sample_day_def)
  have h: "Y (hd (Points (last ?gs))) = Full (last ?cur)"
    using a [THEN c2, THEN c2, THEN c2, THEN c2, THEN c2] .
  have none: "[] = filter (\<lambda>r. DaysElapsed (last ?cur) < DaysElapsed r)
        (case Map.empty (2024 - 1 :: int) of Some recs \<Rightarrow> recs | None \<Rightarrow> [])"
    by simp
  have o: "''History'' \<notin> Name ` set (generateScenarios sample_lib ?cur Map.empty 2024)"
    using history_scenario
      [where L = sample_lib and current = ?cur and allSeasons = Map.empty
         and y = 2024 and currentVal = "Full (last ?cur)"
         and currentDay = "DaysElapsed (last ?cur)" and beyond = "[]"
         and scenarios = "generateScenarios sample_lib ?cur Map.empty 2024",
       OF len refl refl none refl, THEN conjunct1]
    by auto
  from len beyond' n p h o show ?thesis
    by (intro conjI)
qed

text \<open>
  The current season is flat at 90 over days 0 to 13; the preceding season has fills
  80, 78, 76 on days 13, 14, 15. The specification's offset (80 against 90) gives the
  points 88 and 86; the code gives 90 and 88.
\<close>

theorem history_offset_counterexample:
  "spec_history_points sample_lib sample_history 13 90
     = Some [\<lparr>X = 14, Y = 88, HoverDate = ''02 Jan''\<rparr>, \<lparr>X = 15, Y = 86, HoverDate = ''02 Jan''\<rparr>]
   \<and> DaysElapsed (last (sample_season 90 0 14)) = 13
   \<and> Full (last (sample_season 90 0 14)) = 90
   \<and> Points (last (generateScenarios sample_lib (sample_season 90 0 14)
                     [2023 \<mapsto> sample_history] 2024))
       = [\<lparr>X = 14, Y = 90, HoverDate = ''02 Jan''\<rparr>, \<lparr>X = 15, Y = 88, HoverDate = ''02 Jan''\<rparr>]
   \<and> Some (Points (last (generateScenarios sample_lib (sample_season 90 0 14)
                           [2023 \<mapsto> sample_history] 2024)))
       \<noteq> spec_history_points sample_lib sample_history 13 90"
  by (simp add: sample_scenarios spec_history_points_def sample_history_def sample_day_2023_def
      sample_day_def sample_season_last sample_lib_def)


subsection \<open>Season aggregation\<close>

lemma fold_add:
  "fold (\<lambda>j sum. sum + f j) js (a :: real) = a + sum_list (map f js)"
  by (induction js arbitrary: a) simp_all

lemma length_trend_step: "length (trend_step rs i) = length rs"
  by (simp add: trend_step_def Let_def)

lemma trend_step_other:
  "j \<noteq> i \<Longrightarrow> trend_step rs i ! j = rs ! j"
  by (simp add: trend_step_def Let_def)

lemma trend_step_unfold:
  "trend_step rs i =
     (let rs1 = (if 0 < i then rs[i := (rs ! i)\<lparr>Trend := Full (rs ! i) - Full (rs ! (i - 1))\<rparr>]
                 else rs)
      in rs1[i := (rs1 ! i)\<lparr>TrendMA7 :=
                  (0 + sum_list (map (\<lambda>j. Trend (rs1 ! j)) [i - 6 ..< i + 1]))
                    / real (i - (i - 6) + 1)\<rparr>])"
proof -
  have start: "(if int i - 6 < 0 then 0 else i - 6) = i - 6"
    by auto
  show ?thesis
    unfolding trend_step_def start fold_add Let_def ..
qed

lemma nth_update_if:
  "xs[i := x] ! j = (if i = j \<and> i < length xs then x else xs ! j)"
  by (cases "i < length xs") (auto simp add: nth_list_update list_update_beyond)

lemma trend_step_parts:
  obtains rs1 m where
    "rs1 = (if 0 < i then rs[i := (rs ! i)\<lparr>Trend := Full (rs ! i) - Full (rs ! (i - 1))\<rparr>] else rs)"
    "m = (0 + sum_list (map (\<lambda>j. Trend (rs1 ! j)) [i - 6 ..< i + 1])) / real (i - (i - 6) + 1)"
    "trend_step rs i = rs1[i := (rs1 ! i)\<lparr>TrendMA7 := m\<rparr>]"
  using trend_step_unfold [of rs i] unfolding Let_def by blast

lemma trend_step_fields:
  "Full (trend_step rs i ! j) = Full (rs ! j)"
  "Date (trend_step rs i ! j) = Date (rs ! j)"
  "DaysElapsed (trend_step rs i ! j) = DaysElapsed (rs ! j)"
proof -
  obtain rs1 m where
    rs1: "rs1 = (if 0 < i then rs[i := (rs ! i)\<lparr>Trend := Full (rs ! i) - Full (rs ! (i - 1))\<rparr>] else rs)"
    and eq: "trend_step rs i = rs1[i := (rs1 ! i)\<lparr>TrendMA7 := m\<rparr>]"
    by (rule trend_step_parts)
  have "Full (rs1 ! j) = Full (rs ! j)" "Date (rs1 ! j) = Date (rs ! j)"
       "DaysElapsed (rs1 ! j) = DaysElapsed (rs ! j)"
    unfolding rs1 by (simp_all add: nth_update_if)
  then show "Full (trend_step rs i ! j) = Full (rs ! j)"
       "Date (trend_step rs i ! j) = Date (rs ! j)"
       "DaysElapsed (trend_step rs i ! j) = DaysElapsed (rs ! j)"
    unfolding eq by (simp_all add: nth_update_if)
qed

lemma trend_step_Trend:
  "Trend (trend_step rs i ! j) =
     (if j = i \<and> 0 < i \<and> i < length rs then Full (rs ! i) - Full (rs ! (i - 1)) else Trend (rs ! j))"
proof -
  obtain rs1 m where
    rs1: "rs1 = (if 0 < i then rs[i := (rs ! i)\<lparr>Trend := Full (rs ! i) - Full (rs ! (i - 1))\<rparr>] else rs)"
    and eq: "trend_step rs i = rs1[i := (rs1 ! i)\<lparr>TrendMA7 := m\<rparr>]"
    by (rule trend_step_parts)
  have "Trend (trend_step rs i ! j) = Trend (rs1 ! j)"
    unfolding eq by (simp add: nth_update_if)
  also have "\<dots> = (if j = i \<and> 0 < i \<and> i < length rs
                     then Full (rs ! i) - Full (rs ! (i - 1)) else Trend (rs ! j))"
    unfolding rs1 by (auto simp add: nth_update_if)
  finally show ?thesis .
qed

lemma trend_step_TrendMA7:
  "TrendMA7 (trend_step rs i ! j) =
     (if j = i \<and> i < length rs
      then (0 + sum_list (map (\<lambda>k. Trend (trend_step rs i ! k)) [i - 6 ..< i + 1]))
             / real (i - (i - 6) + 1)
      else TrendMA7 (rs ! j))"
proof -
  obtain rs1 m where
    rs1: "rs1 = (if 0 < i then rs[i := (rs ! i)\<lparr>Trend := Full (rs ! i) - Full (rs ! (i - 1))\<rparr>] else rs)"
    and m: "m = (0 + sum_list (map (\<lambda>j. Trend (rs1 ! j)) [i - 6 ..< i + 1])) / real (i - (i - 6) + 1)"
    and eq: "trend_step rs i = rs1[i := (rs1 ! i)\<lparr>TrendMA7 := m\<rparr>]"
    by (rule trend_step_parts)
  have len: "length rs1 = length rs"
    unfolding rs1 by simp
  have same: "Trend (trend_step rs i ! k) = Trend (rs1 ! k)" for k
    unfolding eq by (simp add: nth_update_if)
  have other: "TrendMA7 (rs1 ! j) = TrendMA7 (rs ! j)"
    unfolding rs1 by (simp add: nth_update_if)
  have "TrendMA7 (trend_step rs i ! j) = (if j = i \<and> i < length rs then m else TrendMA7 (rs ! j))"
    unfolding eq using len other by (auto simp add: nth_update_if)
  then show ?thesis
    unfolding m same .
qed

lemma trend_prefix:
  assumes "k \<le> length rs"
  shows "length (fold (\<lambda>i rs. trend_step rs i) [0 ..< k] rs) = length rs
       \<and> (\<forall>j. Full (fold (\<lambda>i rs. trend_step rs i) [0 ..< k] rs ! j) = Full (rs ! j)
              \<and> Date (fold (\<lambda>i rs. trend_step rs i) [0 ..< k] rs ! j) = Date (rs ! j)
              \<and> DaysElapsed (fold (\<lambda>i rs. trend_step rs i) [0 ..< k] rs ! j) = DaysElapsed (rs ! j)
              \<and> Trend (fold (\<lambda>i rs. trend_step rs i) [0 ..< k] rs ! j) =
                  (if 0 < j \<and> j < k then Full (rs ! j) - Full (rs ! (j - 1)) else Trend (rs ! j)))
       \<and> (\<forall>j < k. TrendMA7 (fold (\<lambda>i rs. trend_step rs i) [0 ..< k] rs ! j) =
              (0 + sum_list (map (\<lambda>i. Trend (fold (\<lambda>i rs. trend_step rs i) [0 ..< k] rs ! i))
                                 [j - 6 ..< j + 1]))
                / real (j - (j - 6) + 1))"
  using assms
proof (induction k)
  case 0
  then show ?case by simp
next
  case (Suc k)
  define res where "res = fold (\<lambda>i rs. trend_step rs i) [0 ..< k] rs"
  have step: "fold (\<lambda>i rs. trend_step rs i) [0 ..< Suc k] rs = trend_step res k"
    by (simp add: res_def)
  from Suc have k: "k < length rs"
    by simp
  from Suc.IH k have len: "length res = length rs"
    and fields: "\<And>j. Full (res ! j) = Full (rs ! j)" "\<And>j. Date (res ! j) = Date (rs ! j)"
      "\<And>j. DaysElapsed (res ! j) = DaysElapsed (rs ! j)"
    and trend: "\<And>j. Trend (res ! j) =
                  (if 0 < j \<and> j < k then Full (rs ! j) - Full (rs ! (j - 1)) else Trend (rs ! j))"
    and ma: "\<And>j. j < k \<Longrightarrow> TrendMA7 (res ! j) =
              (0 + sum_list (map (\<lambda>i. Trend (res ! i)) [j - 6 ..< j + 1])) / real (j - (j - 6) + 1)"
    unfolding res_def by simp_all
  have trend': "Trend (trend_step res k ! j) =
      (if 0 < j \<and> j < Suc k then Full (rs ! j) - Full (rs ! (j - 1)) else Trend (rs ! j))" for j
    using k by (auto simp add: trend_step_Trend len fields trend)
  have ma': "TrendMA7 (trend_step res k ! j) =
      (0 + sum_list (map (\<lambda>i. Trend (trend_step res k ! i)) [j - 6 ..< j + 1]))
        / real (j - (j - 6) + 1)" if "j < Suc k" for j
  proof (cases "j = k")
    case True
    then show ?thesis
      using k by (simp only: trend_step_TrendMA7 len) simp
  next
    case False
    with that have j: "j < k"
      by simp
    have "map (\<lambda>i. Trend (trend_step res k ! i)) [j - 6 ..< j + 1]
            = map (\<lambda>i. Trend (res ! i)) [j - 6 ..< j + 1]"
      using j by (intro map_cong refl) (auto simp add: trend_step_Trend)
    with False ma [OF j] show ?thesis
      by (simp only: trend_step_TrendMA7) simp
  qed
  show ?case
    unfolding step
    using trend' ma' by (simp add: length_trend_step len trend_step_fields fields)
qed

lemma calculate_trend_props:
  "length (calculate_trend rs) = length rs"
  "Full (calculate_trend rs ! j) = Full (rs ! j)"
  "Date (calculate_trend rs ! j) = Date (rs ! j)"
  "DaysElapsed (calculate_trend rs ! j) = DaysElapsed (rs ! j)"
  "Trend (calculate_trend rs ! j) =
     (if 0 < j \<and> j < length rs then Full (rs ! j) - Full (rs ! (j - 1)) else Trend (rs ! j))"
  "j < length rs \<Longrightarrow> TrendMA7 (calculate_trend rs ! j) =
     (0 + sum_list (map (\<lambda>i. Trend (calculate_trend rs ! i)) [j - 6 ..< j + 1]))
       / real (j - (j - 6) + 1)"
  using trend_prefix [of "length rs" rs] unfolding calculate_trend_def by simp_all

lemma hours_bracket:
  assumes "0 \<le> h" and "h < 2 ^ 22" and "0 \<le> ns" and "ns \<le> Hour - 3353"
  shows "real_of_int h \<le> add64 (float64 (real_of_int h))
               (div64 (float64 (real_of_int ns)) (float64 (60 * 60 * 1000000000)))"
    and "add64 (float64 (real_of_int h))
               (div64 (float64 (real_of_int ns)) (float64 (60 * 60 * 1000000000)))
           \<le> real_of_int h + 1 - 1 / 2 ^ 30"
proof -
  have fh: "float64 (real_of_int h) = real_of_int h"
    using assms(1,2) by (intro float64_of_int) simp
  have fn: "float64 (real_of_int ns) = real_of_int ns"
    using assms(3,4) by (intro float64_of_int) (simp add: Hour_def Second_def Nanosecond_def)
  have fc: "float64 (60 * 60 * 1000000000) = 3600000000000"
    using float64_of_int [of 3600000000000] by simp
  define q where "q = float64 (real_of_int ns / 3600000000000)"
  have q0: "0 \<le> q"
    unfolding q_def using assms(3) by (intro float64_ge [where k = 0 and e = 0]) simp_all
  have "real_of_int ns \<le> real_of_int (Hour - 3353)"
    using assms(4) by (simp only: of_int_le_iff)
  then have "real_of_int ns / 3600000000000 \<le> 1 - 1 / 2 ^ 30"
    by (simp add: Hour_def Second_def Nanosecond_def field_simps)
  then have q1: "q \<le> 1 - 1 / 2 ^ 30"
    unfolding q_def
    by (rule float64_le [where k = "2 ^ 30 - 1" and e = "- 30"]) (simp_all add: field_simps)
  have s: "add64 (float64 (real_of_int h))
               (div64 (float64 (real_of_int ns)) (float64 (60 * 60 * 1000000000)))
             = float64 (real_of_int h + q)"
    by (simp only: add64_def div64_def fh fn fc q_def)
  have "real_of_int h \<le> float64 (real_of_int h + q)"
    using q0 assms(1,2) by (intro float64_ge [where k = h and e = 0]) simp_all
  then show "real_of_int h \<le> add64 (float64 (real_of_int h))
               (div64 (float64 (real_of_int ns)) (float64 (60 * 60 * 1000000000)))"
    by (simp only: s)
  have "(h + 1) * 2 ^ 30 - 1 < 2 ^ 22 * 2 ^ 30"
    using assms(2) by simp
  then have k: "\<bar>(h + 1) * 2 ^ 30 - 1\<bar> < 2 ^ 53"
    using assms(1) by simp
  have "float64 (real_of_int h + q) \<le> real_of_int h + 1 - 1 / 2 ^ 30"
    using q1 k by (intro float64_le [where k = "(h + 1) * 2 ^ 30 - 1" and e = "- 30"])
      (simp_all add: field_simps)
  then show "add64 (float64 (real_of_int h))
               (div64 (float64 (real_of_int ns)) (float64 (60 * 60 * 1000000000)))
           \<le> real_of_int h + 1 - 1 / 2 ^ 30"
    by (simp only: s)
qed


lemma sdiv_nonneg: "0 \<le> d \<Longrightarrow> 0 < D \<Longrightarrow> d sdiv D = d div D" "0 \<le> d \<Longrightarrow> 0 < D \<Longrightarrow> d smod D = d mod (D::int)"
  by (simp_all add: signed_divide_int_def signed_modulo_int_def sgn_if)

lemma sdiv_minus: "0 < D \<Longrightarrow> (- d) sdiv D = - (d sdiv D)" "0 < D \<Longrightarrow> (- d) smod D = - (d smod (D::int))"
  by (simp_all add: signed_divide_int_def signed_modulo_int_def sgn_if)

lemma float_to_int_floor:
  assumes "0 \<le> t" and "\<lfloor>t\<rfloor> = k" and "k \<le> 2 ^ 63 - 1"
  shows "float_to_int L t = k" and "float_to_int L (- t) = - k"
proof -
  have k0: "0 \<le> k"
    using assms(1,2) by auto
  then show "float_to_int L t = k"
    using assms by (simp add: float_to_int_def)
  have "\<lceil>- t\<rceil> = - k"
    by (simp add: ceiling_minus assms(2))
  moreover have "t = 0 \<Longrightarrow> k = 0"
    using assms(2) by simp
  ultimately show "float_to_int L (- t) = - k"
    using assms(1,3) k0 by (auto simp add: float_to_int_def Let_def)
qed

lemma whole_days_nonneg:
  assumes "0 \<le> d" and "d \<le> 2 ^ 63" and "d mod Hour \<le> Hour - 3353"
  shows "0 \<le> div64 (Duration_Hours d) 24
       \<and> \<lfloor>div64 (Duration_Hours d) 24\<rfloor> = d div (24 * Hour)"
proof -
  define h where "h = d div Hour"
  define ns where "ns = d mod Hour"
  define k where "k = h div 24"
  have pos: "0 < Hour"
    by (simp add: Hour_def Second_def Nanosecond_def)
  have h0: "0 \<le> h"
    using assms(1) pos by (simp add: h_def pos_imp_zdiv_nonneg_iff)
  have "h \<le> 2 ^ 63 div Hour"
    unfolding h_def using assms(2) pos by (intro zdiv_mono1) simp_all
  then have h1: "h < 2 ^ 22"
    by (simp add: Hour_def Second_def Nanosecond_def)
  have ns0: "0 \<le> ns"
    using pos by (simp add: ns_def)
  have dh: "Duration_Hours d = add64 (float64 (real_of_int h))
               (div64 (float64 (real_of_int ns)) (float64 (60 * 60 * 1000000000)))"
    using assms(1) pos by (simp add: Duration_Hours_def Let_def sdiv_nonneg h_def ns_def)
  have lo: "real_of_int h \<le> Duration_Hours d"
    and hi: "Duration_Hours d \<le> real_of_int h + 1 - 1 / 2 ^ 30"
    unfolding dh using h0 h1 ns0 assms(3) [folded ns_def] by (rule hours_bracket)+
  have k0: "0 \<le> k"
    using h0 by (simp add: k_def pos_imp_zdiv_nonneg_iff)
  have k1: "k < 2 ^ 18"
    using h1 by (simp add: k_def)
  have hk: "24 * k \<le> h" "h \<le> 24 * k + 23"
    by (simp_all add: k_def)
  then have hkr: "24 * real_of_int k \<le> real_of_int h" "real_of_int h \<le> 24 * real_of_int k + 23"
    by linarith+
  define t where "t = div64 (Duration_Hours d) 24"
  have "real_of_int k \<le> Duration_Hours d / 24"
    using lo hkr(1) by simp
  then have t0: "real_of_int k \<le> t"
    unfolding t_def div64_def using k0 k1
    by (intro float64_ge [where k = k and e = 0]) simp_all
  have "Duration_Hours d / 24 \<le> real_of_int k + 1 - 1 / 2 ^ 35"
    using hi hkr(2) by simp
  moreover have "(k + 1) * 2 ^ 35 - 1 < 2 ^ 18 * 2 ^ 35"
    using k1 by simp
  then have "\<bar>(k + 1) * 2 ^ 35 - 1\<bar> < 2 ^ 53"
    using k0 by simp
  ultimately have "t \<le> real_of_int k + 1 - 1 / 2 ^ 35"
    unfolding t_def div64_def
    by (intro float64_le [where k = "(k + 1) * 2 ^ 35 - 1" and e = "- 35"])
       (simp_all add: field_simps)
  then have t1: "t < real_of_int k + 1"
    by simp
  have "\<lfloor>t\<rfloor> = k"
    using t0 t1 by (intro floor_unique) simp_all
  moreover have "d div (24 * Hour) = k"
    using pos by (simp add: k_def h_def zdiv_zmult2_eq mult.commute)
  moreover have "0 \<le> t"
    using t0 k0 by simp
  ultimately show ?thesis
    by (simp add: t_def)
qed

lemma Duration_Hours_minus: "Duration_Hours (- d) = - Duration_Hours d"
proof -
  have pos: "0 < Hour"
    by (simp add: Hour_def Second_def Nanosecond_def)
  have "float64 (- a - b) = - float64 (a + b)" for a b :: real
    using float64_minus [of "a + b"] by simp
  then show ?thesis
    by (simp add: Duration_Hours_def Let_def sdiv_minus [OF pos] add64_def div64_def
        float64_minus)
qed

lemma whole_days:
  assumes "minDuration \<le> d" and "d \<le> maxDuration" and "\<bar>d smod Hour\<bar> \<le> Hour - 3353"
  shows "float_to_int L (div64 (Duration_Hours d) 24) = d sdiv (24 * Hour)"
proof -
  have pos: "0 < Hour"
    by (simp add: Hour_def Second_def Nanosecond_def)
  define a where "a = \<bar>d\<bar>"
  have a: "0 \<le> a" "a \<le> 2 ^ 63"
    using assms(1,2) by (simp_all add: a_def minDuration_def maxDuration_def)
  have "a smod Hour = a mod Hour"
    using a(1) pos by (rule sdiv_nonneg)
  moreover have "\<bar>a smod Hour\<bar> = \<bar>d smod Hour\<bar>"
    using pos by (cases "0 \<le> d") (simp_all add: a_def sdiv_minus)
  ultimately have "a mod Hour \<le> Hour - 3353"
    using assms(3) pos by simp
  with a have w: "0 \<le> div64 (Duration_Hours a) 24"
      "\<lfloor>div64 (Duration_Hours a) 24\<rfloor> = a div (24 * Hour)"
    using whole_days_nonneg [of a] by simp_all
  have "a div (24 * Hour) \<le> a div 1"
    using a(1) pos by (intro zdiv_mono2) simp_all
  then have r: "a div (24 * Hour) \<le> 2 ^ 63 - 1"
    using a(2) pos by (simp add: Hour_def Second_def Nanosecond_def)
  note f = float_to_int_floor [OF w r, of L]
  show ?thesis
  proof (cases "0 \<le> d")
    case True
    then show ?thesis
      using f(1) pos by (simp add: a_def sdiv_nonneg)
  next
    case False
    then have d: "d = - a"
      by (simp add: a_def)
    have "div64 (Duration_Hours d) 24 = - div64 (Duration_Hours a) 24"
      by (simp add: d Duration_Hours_minus div64_def float64_minus)
    then have "float_to_int L (div64 (Duration_Hours d) 24) = - (a div (24 * Hour))"
      using f(2) by simp
    also have "\<dots> = d sdiv (24 * Hour)"
      using a(1) pos by (simp add: d sdiv_minus sdiv_nonneg)
    finally show ?thesis .
  qed
qed


lemma time_Sub_range: "minDuration \<le> time_Sub t u" "time_Sub t u \<le> maxDuration"
  by (simp_all add: time_Sub_def Let_def minDuration_def maxDuration_def)

lemma parse_records_props:
  assumes "r \<in> set (parse_records L seasonStart rows)"
  shows "Trend r = 0" "TrendMA7 r = 0" "Date r \<noteq> 0"
    "DaysElapsed r = float_to_int L (div64 (Duration_Hours (time_Sub (Date r) seasonStart)) 24)"
  using assms
  by (induction rows; auto simp add: Let_def split: if_splits)+

lemma map_upt_window:
  assumes "b \<le> length xs"
  shows "map (\<lambda>k. f (xs ! k)) [a ..< b] = map f (take (b - a) (drop a xs))"
  using assms by (intro map_upt_eqI) auto

lemma fetchSeason_success:
  assumes "fetchSeason L w startYear = (Inr records, w')" and "records \<noteq> []"
  obtains rows where
    "records = calculate_trend
       (sort_Slice L (\<lambda>a b. Date a < Date b)
          (parse_records L
             (time_Parse_or_zero L ''2006-01-02'' (Sprintf_d startYear @ ''-'' @ winterStartMD))
             rows))"
  using assms unfolding fetchSeason_def Let_def
  by (auto split: if_splits http_result.splits sum.splits)

lemma sort_Slice_props:
  assumes "sort_Slice_sorts L"
  shows "set (sort_Slice L (\<lambda>a b. Date a < Date b) xs) = set xs"
    and "length (sort_Slice L (\<lambda>a b. Date a < Date b) xs) = length xs"
    and "sorted_wrt (\<lambda>a b. Date a \<le> Date b) (sort_Slice L (\<lambda>a b. Date a < Date b) xs)"
proof -
  from assms have m: "mset (sort_Slice L (\<lambda>a b. Date a < Date b) xs) = mset xs"
    and s: "sorted_wrt (\<lambda>a b. \<not> Date b < Date a) (sort_Slice L (\<lambda>a b. Date a < Date b) xs)"
    by (simp_all add: sort_Slice_sorts_def)
  from m show "set (sort_Slice L (\<lambda>a b. Date a < Date b) xs) = set xs"
    by (rule mset_eq_setD)
  from m show "length (sort_Slice L (\<lambda>a b. Date a < Date b) xs) = length xs"
    by (rule mset_eq_length)
  from s show "sorted_wrt (\<lambda>a b. Date a \<le> Date b) (sort_Slice L (\<lambda>a b. Date a < Date b) xs)"
    by (simp add: not_less)
qed


text \<open>
  C3. For every record sequence \<open>fetchSeason\<close> returns (given that \<^verbatim>\<open>sort.Slice\<close> sorts)
  and every index \<open>i\<close> of it: the trend of the first record is zero; for \<open>i > 0\<close> the
  trend at \<open>i\<close> is the fill at \<open>i\<close> minus the fill at \<open>i - 1\<close>; and the seven day average
  at \<open>i\<close> is the arithmetic mean (sum over count) of the trends of the window of indices
  \<open>max 0 (i - 6)\<close> to \<open>i\<close>, which has \<open>i + 1 - max 0 (i - 6)\<close> elements and so never looks
  ahead.
\<close>

theorem fetchSeason_trend:
  assumes "sort_Slice_sorts L"
      and "fetchSeason L w startYear = (Inr records, w')"
      and "i < length records"
      and "start = nat (max 0 (int i - 6))"
      and "window = take (Suc i - start) (drop start records)"
  shows "Trend (records ! 0) = 0
       \<and> (0 < i \<longrightarrow> Trend (records ! i) = Full (records ! i) - Full (records ! (i - 1)))
       \<and> length window = Suc i - start
       \<and> TrendMA7 (records ! i) = sum_list (map Trend window) / real (length window)"
proof -
  from assms(3) have ne: "records \<noteq> []"
    by auto
  from assms(2) ne obtain rows where
    records: "records = calculate_trend
       (sort_Slice L (\<lambda>a b. Date a < Date b)
          (parse_records L
             (time_Parse_or_zero L ''2006-01-02'' (Sprintf_d startYear @ ''-'' @ winterStartMD))
             rows))"
    by (rule fetchSeason_success)
  define parsed where "parsed = parse_records L
             (time_Parse_or_zero L ''2006-01-02'' (Sprintf_d startYear @ ''-'' @ winterStartMD)) rows"
  define sorted where "sorted = sort_Slice L (\<lambda>a b. Date a < Date b) parsed"
  have rec: "records = calculate_trend sorted"
    by (simp add: records sorted_def parsed_def)
  have len: "length sorted = length records"
    by (simp add: rec calculate_trend_props(1))
  have "sorted ! 0 \<in> set sorted"
    using ne len by (intro nth_mem) simp
  then have "sorted ! 0 \<in> set parsed"
    by (simp add: sorted_def sort_Slice_props [OF assms(1)])
  then have zero: "Trend (sorted ! 0) = 0"
    unfolding parsed_def by (rule parse_records_props)
  have first: "Trend (records ! 0) = 0"
    unfolding rec by (simp add: calculate_trend_props(5) zero)
  have diff: "Trend (records ! i) = Full (records ! i) - Full (records ! (i - 1))" if "0 < i"
    using that assms(3) len [unfolded rec] unfolding rec
    by (simp add: calculate_trend_props(2,5))
  have start: "start = i - 6"
    by (simp add: assms(4))
  have wlen: "length window = Suc i - start"
    using assms(3) by (simp add: assms(5) start)
  have "TrendMA7 (records ! i) =
          (0 + sum_list (map (\<lambda>k. Trend (records ! k)) [i - 6 ..< i + 1])) / real (i - (i - 6) + 1)"
    using assms(3) len unfolding rec by (intro calculate_trend_props(6)) simp
  also have "map (\<lambda>k. Trend (records ! k)) [i - 6 ..< i + 1] = map Trend window"
    unfolding assms(5) start using assms(3) by (subst map_upt_window) simp_all
  also have "real (i - (i - 6) + 1) = real (length window)"
    by (simp add: wlen start)
  finally have ma: "TrendMA7 (records ! i) = sum_list (map Trend window) / real (length window)"
    by simp
  from first diff wlen ma show ?thesis
    by simp
qed

lemma Sprintf_d_2024: "Sprintf_d 2024 = ''2024''"
  by (simp add: Sprintf_d_def decimal.simps)

lemma sample_season_start:
  "time_Parse_or_zero sample_lib ''2006-01-02'' (Sprintf_d 2024 @ ''-'' @ winterStartMD)
     = sample_instant 0 0"
  by (simp add: Sprintf_d_2024 winterStartMD_def time_Parse_or_zero_def sample_lib_def)

lemma sample_elapsed:
  "float_to_int L (div64 (Duration_Hours (time_Sub (sample_instant 0 0) (sample_instant 0 0))) 24) = 0"
  "float_to_int L (div64 (Duration_Hours (time_Sub (sample_instant 1 0) (sample_instant 0 0))) 24) = 1"
  "float_to_int L (div64 (Duration_Hours (time_Sub (sample_instant 2 0) (sample_instant 0 0))) 24) = 2"
  "float_to_int L (div64 (Duration_Hours (time_Sub (sample_instant 0 18) (sample_instant 0 0))) 24) = 0"
  "float_to_int L (div64 (Duration_Hours (time_Sub (sample_instant 1 12) (sample_instant 0 0))) 24) = 1"
proof -
  have d: "time_Sub (sample_instant 0 0) (sample_instant 0 0) = 0"
      "time_Sub (sample_instant 1 0) (sample_instant 0 0) = 86400000000000"
      "time_Sub (sample_instant 2 0) (sample_instant 0 0) = 172800000000000"
      "time_Sub (sample_instant 0 18) (sample_instant 0 0) = 64800000000000"
      "time_Sub (sample_instant 1 12) (sample_instant 0 0) = 129600000000000"
    by (simp_all add: sample_instant_def time_Sub_def minDuration_def maxDuration_def Hour_def
        Second_def Nanosecond_def)
  have w: "float_to_int L (div64 (Duration_Hours k) 24) = q"
    if "minDuration \<le> k" "k \<le> maxDuration" "\<bar>k smod Hour\<bar> \<le> Hour - 3353"
       "k sdiv (24 * Hour) = q" for k q
    using whole_days [OF that(1-3), of L] that(4) by simp
  show "float_to_int L (div64 (Duration_Hours (time_Sub (sample_instant 0 0) (sample_instant 0 0))) 24) = 0"
    unfolding d
    by (rule w) (simp_all add: minDuration_def maxDuration_def Hour_def Second_def Nanosecond_def
        signed_divide_int_def signed_modulo_int_def)
  show "float_to_int L (div64 (Duration_Hours (time_Sub (sample_instant 1 0) (sample_instant 0 0))) 24) = 1"
    unfolding d
    by (rule w) (simp_all add: minDuration_def maxDuration_def Hour_def Second_def Nanosecond_def
        signed_divide_int_def signed_modulo_int_def)
  show "float_to_int L (div64 (Duration_Hours (time_Sub (sample_instant 2 0) (sample_instant 0 0))) 24) = 2"
    unfolding d
    by (rule w) (simp_all add: minDuration_def maxDuration_def Hour_def Second_def Nanosecond_def
        signed_divide_int_def signed_modulo_int_def)
  show "float_to_int L (div64 (Duration_Hours (time_Sub (sample_instant 0 18) (sample_instant 0 0))) 24) = 0"
    unfolding d
    by (rule w) (simp_all add: minDuration_def maxDuration_def Hour_def Second_def Nanosecond_def
        signed_divide_int_def signed_modulo_int_def)
  show "float_to_int L (div64 (Duration_Hours (time_Sub (sample_instant 1 12) (sample_instant 0 0))) 24) = 1"
    unfolding d
    by (rule w) (simp_all add: minDuration_def maxDuration_def Hour_def Second_def Nanosecond_def
        signed_divide_int_def signed_modulo_int_def)
qed

lemma sample_instant_nonzero:
  "sample_instant 0 0 \<noteq> 0" "sample_instant 1 0 \<noteq> 0" "sample_instant 2 0 \<noteq> 0"
  "sample_instant 0 18 \<noteq> 0" "sample_instant 1 12 \<noteq> 0"
  by (simp_all add: sample_instant_def Hour_def Second_def Nanosecond_def)

lemma sample_instant_order:
  "sample_instant 0 0 < sample_instant 1 0" "sample_instant 1 0 < sample_instant 2 0"
  "sample_instant 0 0 < sample_instant 2 0" "sample_instant 0 18 < sample_instant 1 12"
  "sample_instant 0 0 < sample_instant 10 0"
  by (simp_all add: sample_instant_def Hour_def Second_def Nanosecond_def)

lemma sample_parse:
  "parseDate sample_lib ''2024-11-02'' = sample_instant 1 0"
  "parseDate sample_lib ''2024-11-01'' = sample_instant 0 0"
  "parseDate sample_lib ''yesterday'' = 0"
  "parseDate sample_lib ''2024-11-03'' = sample_instant 2 0"
  "parseDate sample_lib ''2024-11-01T18:00:00Z'' = sample_instant 0 18"
  "parseDate sample_lib ''2024-11-02T12:00:00Z'' = sample_instant 1 12"
  "parseFloat sample_lib ''95'' = 95" "parseFloat sample_lib ''-'' = 0"
  "parseFloat sample_lib ''12.5'' = 125 / 10" "parseFloat sample_lib ''95.5'' = 955 / 10"
  "parseFloat sample_lib [] = 0" "parseFloat sample_lib ''N/A'' = 0"
  "parseFloat sample_lib ''94'' = 94"
  "time_Format sample_lib t ''02 Jan 2006'' = ''02 Jan 2006''"
  by (simp_all add: parseDate_def parseFloat_def sample_lib_def)

lemma sample_parse_days:
  "parse_records sample_lib (sample_instant 0 0) sample_days_rows = sample_days_parsed"
  by (simp add: sample_days_rows_def sample_days_parsed_def sample_parse sample_elapsed
      sample_instant_nonzero)


lemma sample_trend_days:
  "calculate_trend (insertion_sort (\<lambda>a b. Date a < Date b) sample_days_parsed)
     = sample_days_records"
  using sample_instant_order
  by (simp add: sample_days_parsed_def calculate_trend_def trend_step_def
      sample_days_records_def upt_rec)

lemma sample_fetch_clock:
  assumes "json_Unmarshal sample_lib body = Inr rows" and "rows \<noteq> []"
      and "parse_records sample_lib (sample_instant 0 0) rows \<noteq> []"
      and "sample_instant 0 0 \<le> t"
  shows "fetchSeason sample_lib ((sample_world body)\<lparr>clock := t\<rparr>) 2024
     = (Inr (calculate_trend (insertion_sort (\<lambda>a b. Date a < Date b)
               (parse_records sample_lib (sample_instant 0 0) rows))),
        (sample_world body)\<lparr>clock := t, requests := 1\<rparr>)"
proof -
  have http: "http (sample_world body) n = Response 200 body" for n
    by (simp add: sample_world_def)
  have sort: "sort_Slice sample_lib = insertion_sort"
    by (simp add: sample_lib_def)
  have req: "requests (sample_world body) = 0"
    by (simp add: sample_world_def)
  show ?thesis
    unfolding fetchSeason_def Let_def sample_season_start
    using assms by (simp add: http sort req)
qed

lemma sample_fetch:
  assumes "json_Unmarshal sample_lib body = Inr rows" and "rows \<noteq> []"
      and "parse_records sample_lib (sample_instant 0 0) rows \<noteq> []"
  shows "fetchSeason sample_lib (sample_world body) 2024
     = (Inr (calculate_trend (insertion_sort (\<lambda>a b. Date a < Date b)
               (parse_records sample_lib (sample_instant 0 0) rows))),
        (sample_world body)\<lparr>requests := 1\<rparr>)"
proof -
  have "sample_instant 0 0 \<le> sample_instant 10 0"
    using sample_instant_order by simp
  from sample_fetch_clock [OF assms this] show ?thesis
    by (simp add: sample_world_def)
qed

lemma sample_fetch_days:
  "fetchSeason sample_lib (sample_world ''days'') 2024
     = (Inr sample_days_records, (sample_world ''days'')\<lparr>requests := 1\<rparr>)"
proof -
  have json: "json_Unmarshal sample_lib ''days'' = Inr sample_days_rows"
    by (simp add: sample_lib_def)
  have ne: "sample_days_rows \<noteq> []"
    by (simp add: sample_days_rows_def)
  have ne': "parse_records sample_lib (sample_instant 0 0) sample_days_rows \<noteq> []"
    by (simp add: sample_parse_days sample_days_parsed_def)
  show ?thesis
    by (simp only: sample_fetch [OF json ne ne'] sample_parse_days sample_trend_days)
qed

lemma mset_insert_by: "mset (insert_by lt x xs) = add_mset x (mset xs)"
  by (induction xs) simp_all

lemma mset_insertion_sort: "mset (insertion_sort lt xs) = mset xs"
  by (induction xs) (simp_all add: mset_insert_by)

lemma set_insert_by: "set (insert_by lt x xs) = insert x (set xs)"
  using mset_insert_by [of lt x xs, THEN arg_cong, of set_mset] by simp

lemma sorted_insert_by:
  assumes "sorted_wrt (\<lambda>a b. \<not> Date b < Date a) xs"
  shows "sorted_wrt (\<lambda>a b. \<not> Date b < Date a) (insert_by (\<lambda>a b. Date a < Date b) x xs)"
  using assms by (induction xs) (auto simp add: set_insert_by)

lemma sorted_insertion_sort:
  "sorted_wrt (\<lambda>a b. \<not> Date b < Date a) (insertion_sort (\<lambda>a b. Date a < Date b) xs)"
  by (induction xs) (simp_all add: sorted_insert_by)

lemma sample_lib_sorts: "sort_Slice_sorts sample_lib"
  by (simp add: sort_Slice_sorts_def sample_lib_def mset_insertion_sort sorted_insertion_sort)

theorem fetchSeason_trend_witness:
  "sort_Slice_sorts sample_lib
   \<and> fetchSeason sample_lib (sample_world ''days'') 2024
       = (Inr sample_days_records, (sample_world ''days'')\<lparr>requests := 1\<rparr>)
   \<and> (2::nat) < length sample_days_records
   \<and> Trend (sample_days_records ! 0) = 0
   \<and> Trend (sample_days_records ! 2) = Full (sample_days_records ! 2) - Full (sample_days_records ! 1)
   \<and> TrendMA7 (sample_days_records ! 2)
       = sum_list (map Trend (take 3 (drop 0 sample_days_records))) / 3"
proof -
  have len: "(2::nat) < length sample_days_records"
    by (simp add: sample_days_records_def)
  have start: "(0::nat) = nat (max 0 (int 2 - 6))"
    by simp
  note a = fetchSeason_trend [OF sample_lib_sorts sample_fetch_days len start refl]
  have t0: "Trend (sample_days_records ! 0) = 0"
    using a [THEN conjunct1] .
  have t2: "Trend (sample_days_records ! 2) = Full (sample_days_records ! 2) - Full (sample_days_records ! 1)"
    using a [THEN conjunct2, THEN conjunct1] by simp
  have ma: "TrendMA7 (sample_days_records ! 2)
       = sum_list (map Trend (take 3 (drop 0 sample_days_records))) / 3"
    using a [THEN conjunct2, THEN conjunct2, THEN conjunct2] len by simp
  from sample_lib_sorts sample_fetch_days len t0 t2 ma show ?thesis
    by (intro conjI)
qed












subsection \<open>Retrying fetcher\<close>

lemma fetchSeason_world:
  assumes "fetchSeason L w y = (r, w')"
  shows "slept w' = slept w" "clock w' = clock w" "http w' = http w"
    "requests w \<le> requests w'" "requests w' \<le> Suc (requests w)"
  using assms unfolding fetchSeason_def Let_def
  by (auto split: if_splits http_result.splits sum.splits)

lemma retry_loop_before:
  assumes "attempt < retryAttempts"
  shows "fetchSeasonWithRetry_loop L y attempt lastErr w =
     (case fetchSeason L w y of
        (Inr records, w1) \<Rightarrow> (Inr records, w1)
      | (Inl err, w1) \<Rightarrow>
          fetchSeasonWithRetry_loop L y (Suc attempt) (Some err)
            (time_Sleep (retryDelay * int attempt) w1))"
  using assms
  by (subst fetchSeasonWithRetry_loop.simps) (simp add: Let_def split: prod.splits sum.splits)

lemma retry_loop_last:
  "fetchSeasonWithRetry_loop L y retryAttempts lastErr w =
     (case fetchSeason L w y of
        (Inr records, w1) \<Rightarrow> (Inr records, w1)
      | (Inl err, w1) \<Rightarrow> (Inl (AllAttemptsFailed retryAttempts y (Some err)), w1))"
proof -
  have past: "fetchSeasonWithRetry_loop L y (Suc retryAttempts) e w1 =
                (Inl (AllAttemptsFailed retryAttempts y e), w1)" for e w1
    by (subst fetchSeasonWithRetry_loop.simps) simp
  show ?thesis
    by (subst fetchSeasonWithRetry_loop.simps) (simp add: past Let_def split: prod.splits sum.splits)
qed

lemma fetchSeasonWithRetry_unfold:
  "fetchSeasonWithRetry L w y =
     (case fetchSeason L w y of
        (Inr records, w1) \<Rightarrow> (Inr records, w1)
      | (Inl e1, w1) \<Rightarrow>
          (case fetchSeason L (time_Sleep (retryDelay * 1) w1) y of
             (Inr records, w2) \<Rightarrow> (Inr records, w2)
           | (Inl e2, w2) \<Rightarrow>
               (case fetchSeason L (time_Sleep (retryDelay * 2) w2) y of
                  (Inr records, w3) \<Rightarrow> (Inr records, w3)
                | (Inl e3, w3) \<Rightarrow> (Inl (AllAttemptsFailed 3 y (Some e3)), w3))))"
proof -
  have a1: "(1::nat) < retryAttempts" and a2: "Suc 1 < retryAttempts"
    and a3: "Suc (Suc 1) = retryAttempts"
    by (simp_all add: retryAttempts_def)
  have i1: "retryDelay * int 1 = retryDelay * 1" and i2: "retryDelay * int (Suc 1) = retryDelay * 2"
    by simp_all
  have three: "retryAttempts = 3"
    by (simp add: retryAttempts_def)
  show ?thesis
    unfolding fetchSeasonWithRetry_def retry_loop_before [OF a1] retry_loop_before [OF a2] i1 i2
    unfolding a3
    unfolding retry_loop_last
    unfolding three ..
qed

lemma time_Sleep_world:
  "slept (time_Sleep d w) = slept w @ [d]" "requests (time_Sleep d w) = requests w"
  "http (time_Sleep d w) = http w" "clock (time_Sleep d w) = clock w + max d 0"
  by (simp_all add: time_Sleep_def)

lemma fetchSeasonWithRetry_effects:
  "\<exists>n. 1 \<le> n \<and> n \<le> retryAttempts
      \<and> slept (snd (fetchSeasonWithRetry L w y))
          = slept w @ map (\<lambda>k. retryDelay * int k) [1 ..< n]
      \<and> requests (snd (fetchSeasonWithRetry L w y)) \<le> requests w + n
      \<and> (\<forall>e. fst (fetchSeasonWithRetry L w y) = Inl e \<longrightarrow>
             n = retryAttempts \<and> (\<exists>cause. e = AllAttemptsFailed retryAttempts y (Some cause)))"
proof -
  obtain r1 w1 where f1: "fetchSeason L w y = (r1, w1)"
    by (cases "fetchSeason L w y")
  note e1 = fetchSeason_world [OF f1]
  show ?thesis
  proof (cases r1)
    case (Inr records)
    then have res: "fetchSeasonWithRetry L w y = (Inr records, w1)"
      by (simp add: fetchSeasonWithRetry_unfold f1)
    show ?thesis
      by (rule exI [of _ 1]) (simp add: res e1 retryAttempts_def)
  next
    case (Inl err1)
    obtain r2 w2 where f2: "fetchSeason L (time_Sleep (retryDelay * 1) w1) y = (r2, w2)"
      by (cases "fetchSeason L (time_Sleep (retryDelay * 1) w1) y")
    note e2 = fetchSeason_world [OF f2, unfolded time_Sleep_world e1]
    show ?thesis
    proof (cases r2)
      case (Inr records)
      with Inl have res: "fetchSeasonWithRetry L w y = (Inr records, w2)"
        by (simp add: fetchSeasonWithRetry_unfold f1 f2 [unfolded mult_1_right])
      show ?thesis
        using e1 e2 by (intro exI [of _ 2]) (simp add: res retryAttempts_def upt_rec)
    next
      case err2: (Inl err2)
      obtain r3 w3 where f3: "fetchSeason L (time_Sleep (retryDelay * 2) w2) y = (r3, w3)"
        by (cases "fetchSeason L (time_Sleep (retryDelay * 2) w2) y")
      note e3 = fetchSeason_world [OF f3, unfolded time_Sleep_world e2]
      have res: "fetchSeasonWithRetry L w y =
                   (case r3 of Inr records \<Rightarrow> (Inr records, w3)
                    | Inl e3 \<Rightarrow> (Inl (AllAttemptsFailed 3 y (Some e3)), w3))"
        using Inl err2
        by (simp add: fetchSeasonWithRetry_unfold f1 f2 [unfolded mult_1_right] f3)
      show ?thesis
        using e1 e2 e3
        by (intro exI [of _ 3]) (auto simp add: res retryAttempts_def upt_rec split: sum.splits)
    qed
  qed
qed

text \<open>
  C9. \<open>fetchSeasonWithRetry\<close> calls \<open>fetchSeason\<close> at most three times and returns the
  records of the first call that succeeds; after a failed first call it sleeps
  \<open>retryDelay * 1\<close>, after a failed second call \<open>retryDelay * 2\<close>, and after a failed
  third call it does not sleep but returns the failure that wraps the number of
  attempts, the season start year and the error of the third call. So with \<open>n\<close> the
  number of calls made, the durations slept are \<open>retryDelay * k\<close> for \<open>k\<close> from 1 to
  \<open>n - 1\<close>, at most \<open>n\<close> (hence at most \<open>retryAttempts\<close>) upstream requests are sent, and a
  failure is returned only after \<open>retryAttempts\<close> calls.
\<close>

theorem fetchSeasonWithRetry_contract:
  "fetchSeasonWithRetry L w y =
     (case fetchSeason L w y of
        (Inr records, w1) \<Rightarrow> (Inr records, w1)
      | (Inl e1, w1) \<Rightarrow>
          (case fetchSeason L (time_Sleep (retryDelay * 1) w1) y of
             (Inr records, w2) \<Rightarrow> (Inr records, w2)
           | (Inl e2, w2) \<Rightarrow>
               (case fetchSeason L (time_Sleep (retryDelay * 2) w2) y of
                  (Inr records, w3) \<Rightarrow> (Inr records, w3)
                | (Inl e3, w3) \<Rightarrow> (Inl (AllAttemptsFailed 3 y (Some e3)), w3))))
   \<and> requests (snd (fetchSeasonWithRetry L w y)) \<le> requests w + retryAttempts
   \<and> (\<exists>n. 1 \<le> n \<and> n \<le> retryAttempts
          \<and> slept (snd (fetchSeasonWithRetry L w y))
              = slept w @ map (\<lambda>k. retryDelay * int k) [1 ..< n]
          \<and> requests (snd (fetchSeasonWithRetry L w y)) \<le> requests w + n
          \<and> (\<forall>e. fst (fetchSeasonWithRetry L w y) = Inl e \<longrightarrow>
                 n = retryAttempts
               \<and> (\<exists>cause. e = AllAttemptsFailed retryAttempts y (Some cause))))"
proof -
  from fetchSeasonWithRetry_effects [of L w y]
  have "requests (snd (fetchSeasonWithRetry L w y)) \<le> requests w + retryAttempts"
    by auto
  with fetchSeasonWithRetry_unfold [of L w y] fetchSeasonWithRetry_effects [of L w y]
  show ?thesis
    by (intro conjI)
qed

lemma sample_fetch_at:
  assumes "sample_instant 0 0 \<le> clock w" and "http w (requests w) = Response 200 ''days''"
  shows "fetchSeason sample_lib w 2024
           = (Inr sample_days_records, w\<lparr>requests := Suc (requests w)\<rparr>)"
proof -
  have json: "json_Unmarshal sample_lib ''days'' = Inr sample_days_rows"
    by (simp add: sample_lib_def)
  have ne: "sample_days_rows \<noteq> []"
    by (simp add: sample_days_rows_def)
  have ne': "sample_days_parsed \<noteq> []"
    by (simp add: sample_days_parsed_def)
  have sort: "sort_Slice sample_lib = insertion_sort"
    by (simp add: sample_lib_def)
  show ?thesis
    unfolding fetchSeason_def Let_def sample_season_start
    using assms ne ne'
    by (simp add: json sort sample_parse_days sample_trend_days not_less [symmetric])
qed

lemma sample_fetch_busy:
  assumes "sample_instant 0 0 \<le> clock w" and "http w (requests w) = Response 503 ''busy''"
  shows "fetchSeason sample_lib w 2024
           = (Inl (APIStatus 503 ''busy''), w\<lparr>requests := Suc (requests w)\<rparr>)"
  unfolding fetchSeason_def Let_def sample_season_start
  using assms by (simp add: not_less [symmetric])

text \<open>
  Two failures and then a success return the records after sleeping two and four
  seconds; three failures return the wrapped failure after the same two sleeps.
\<close>

theorem fetchSeasonWithRetry_contract_witness:
  "fetchSeasonWithRetry sample_lib (sample_world_busy 2) 2024
     = (Inr sample_days_records,
        \<lparr>clock = sample_instant 10 0 + retryDelay * 1 + retryDelay * 2,
         http = http (sample_world_busy 2), requests = 3,
         slept = [retryDelay * 1, retryDelay * 2]\<rparr>)
   \<and> fetchSeasonWithRetry sample_lib (sample_world_busy 3) 2024
     = (Inl (AllAttemptsFailed 3 2024 (Some (APIStatus 503 ''busy''))),
        \<lparr>clock = sample_instant 10 0 + retryDelay * 1 + retryDelay * 2,
         http = http (sample_world_busy 3), requests = 3,
         slept = [retryDelay * 1, retryDelay * 2]\<rparr>)"
proof -
  have start: "sample_instant 0 0 \<le> sample_instant 10 0"
    using sample_instant_order(5) by simp
  have delay: "0 \<le> retryDelay"
    by (simp add: retryDelay_def Second_def Nanosecond_def)
  have busy: "fetchSeason sample_lib
                \<lparr>clock = t, http = http (sample_world_busy k), requests = n, slept = ds\<rparr> 2024
              = (Inl (APIStatus 503 ''busy''),
                 \<lparr>clock = t, http = http (sample_world_busy k), requests = Suc n, slept = ds\<rparr>)"
    if "sample_instant 0 0 \<le> t" "n < k" for t k n ds
    using that by (subst sample_fetch_busy) (simp_all add: sample_world_busy_def)
  have ok: "fetchSeason sample_lib
                \<lparr>clock = t, http = http (sample_world_busy k), requests = n, slept = ds\<rparr> 2024
              = (Inr sample_days_records,
                 \<lparr>clock = t, http = http (sample_world_busy k), requests = Suc n, slept = ds\<rparr>)"
    if "sample_instant 0 0 \<le> t" "\<not> n < k" for t k n ds
    using that by (subst sample_fetch_at) (simp_all add: sample_world_busy_def)
  have w: "sample_world_busy k =
             \<lparr>clock = sample_instant 10 0, http = http (sample_world_busy k), requests = 0,
              slept = []\<rparr>" for k
    by (simp add: sample_world_busy_def)
  have a: "fetchSeasonWithRetry sample_lib (sample_world_busy 2) 2024
     = (Inr sample_days_records,
        \<lparr>clock = sample_instant 10 0 + retryDelay * 1 + retryDelay * 2,
         http = http (sample_world_busy 2), requests = 3,
         slept = [retryDelay * 1, retryDelay * 2]\<rparr>)"
    apply (subst fetchSeasonWithRetry_contract [THEN conjunct1])
    apply (subst w)
    using start delay
    apply (simp add: busy ok time_Sleep_def)
    done
  have b: "fetchSeasonWithRetry sample_lib (sample_world_busy 3) 2024
     = (Inl (AllAttemptsFailed 3 2024 (Some (APIStatus 503 ''busy''))),
        \<lparr>clock = sample_instant 10 0 + retryDelay * 1 + retryDelay * 2,
         http = http (sample_world_busy 3), requests = 3,
         slept = [retryDelay * 1, retryDelay * 2]\<rparr>)"
    apply (subst fetchSeasonWithRetry_contract [THEN conjunct1])
    apply (subst w)
    using start delay
    apply (simp add: busy ok time_Sleep_def)
    done
  from a b show ?thesis
    by (intro conjI)
qed


subsection \<open>Single-flight build\<close>






























end
